theory Spec2Isabelle
  imports Complex_Main "HOL-Library.Sublist" "HOL-Library.Char_ord" "HOL-Library.List_Lexorder"
    "HOL-Library.Product_Lexorder"
begin

section \<open>Data model\<close>

text \<open>
  A calendar date (\<^verbatim>\<open>datetime.date\<close>) is the triple (year, month, day); the lexicographic
  order of triples is the order of dates. Numbers are pandas floats; they are modelled as
  reals, and a missing value (None, NaN: whatever \<^verbatim>\<open>pd.isna\<close> accepts) as \<open>None\<close>.
\<close>

type_synonym date = "nat \<times> nat \<times> nat"

text \<open>
  A row of the counters table (a \<^verbatim>\<open>pd.Series\<close>): the two fixed columns the calculator reads
  by name, and the numeric columns in the order of the row's index. The labels of a row are
  the column names of a DataFrame, hence distinct; the non-numeric columns of the table
  (ENTITY, FAB, FAB_ENTITY, counter_date, the load metadata) do not end in "Counter" and are
  never read by the counter search.
\<close>

type_synonym row = "(string \<times> real option) list"

record counter_row =
  ENTITY :: string
  counter_date :: date
  columns :: row

definition row_index :: "row \<Rightarrow> string list" where
  "row_index r = map fst r"

text \<open>\<^verbatim>\<open>row[col]\<close> for a label of the row, and \<^verbatim>\<open>row.get(col, np.nan)\<close> for any label.\<close>

definition row_get :: "row \<Rightarrow> string \<Rightarrow> real option" where
  "row_get r col = (case map_of r col of None \<Rightarrow> None | Some v \<Rightarrow> v)"

record wafer_config =
  primary_keywords :: "string list"
  fallback_keywords :: "string list"
  replacement_threshold :: real

text \<open>The diagnostic strings appended to \<^verbatim>\<open>calculation_notes\<close>, one constructor per message.\<close>

datatype calc_note =
    NoCounterFound
  | FirstDay
  | NotInPreviousRow string
  | PreviousValueNull
  | PartReplacement string real real
  | UsedFallback string
  | ChangeSetToZero
  | NoRunningHours

record production_result =
  res_ENTITY :: string
  res_counter_date :: date
  counter_column_used :: "string option"
  counter_keyword_used :: "string option"
  counter_current_value :: "real option"
  counter_previous_value :: "real option"
  counter_change :: "real option"
  part_replacement_detected :: bool
  wafers_produced :: "real option"
  res_running_hours :: real
  wafers_per_hour :: "real option"
  calculation_notes :: "calc_note list"

datatype py_error = ZeroDivisionError | KeyError

section \<open>Counter discovery (wafer\_production.py)\<close>

text \<open>
  \<^verbatim>\<open>[col for col in row.index if keyword in col and col.endswith('Counter')]\<close>:
  \<^verbatim>\<open>keyword in col\<close> is the substring test on strings.
\<close>

definition name_matches :: "string \<Rightarrow> string \<Rightarrow> bool" where
  "name_matches keyword col = (sublist keyword col \<and> suffix ''Counter'' col)"

definition matching_cols :: "row \<Rightarrow> string \<Rightarrow> string list" where
  "matching_cols r keyword = filter (name_matches keyword) (row_index r)"

text \<open>The inner loop: the first matching column whose value is not missing and above 0.\<close>

fun first_usable :: "row \<Rightarrow> string list \<Rightarrow> (string \<times> real) option" where
  "first_usable r [] = None"
| "first_usable r (col # cols) =
     (case row_get r col of
        None \<Rightarrow> first_usable r cols
      | Some v \<Rightarrow> if v > 0 then Some (col, v) else first_usable r cols)"

fun find_counter_column :: "row \<Rightarrow> string list \<Rightarrow> (string \<times> real \<times> string) option" where
  "find_counter_column r [] = None"
| "find_counter_column r (keyword # keywords) =
     (case first_usable r (matching_cols r keyword) of
        Some (col, v) \<Rightarrow> Some (col, v, keyword)
      | None \<Rightarrow> find_counter_column r keywords)"

section \<open>Production differencer (wafer\_production.py)\<close>

definition detect_part_replacement :: "wafer_config \<Rightarrow> real \<Rightarrow> bool" where
  "detect_part_replacement cfg change = (change < replacement_threshold cfg)"

definition add_note :: "calc_note \<Rightarrow> production_result \<Rightarrow> production_result" where
  "add_note n res = res\<lparr>calculation_notes := calculation_notes res @ [n]\<rparr>"

text \<open>
  Lines 231--249: the fallback search, made only when the keyword first selected is a
  primary one. The result is rewritten only under the guard \<^verbatim>\<open>change >= 0\<close> on the
  fallback's own difference.
\<close>

definition try_fallback ::
  "wafer_config \<Rightarrow> counter_row \<Rightarrow> counter_row \<Rightarrow> string \<Rightarrow> production_result \<Rightarrow> production_result"
where
  "try_fallback cfg current_row previous_row keyword res =
     (if keyword \<in> set (primary_keywords cfg) then
        (case find_counter_column (columns current_row) (fallback_keywords cfg) of
           None \<Rightarrow> res
         | Some (fallback_col, fallback_val, fallback_keyword) \<Rightarrow>
             if fallback_col \<in> set (row_index (columns previous_row)) then
               (case row_get (columns previous_row) fallback_col of
                  None \<Rightarrow> res
                | Some prev_fallback \<Rightarrow>
                    let change = fallback_val - prev_fallback in
                    if change \<ge> 0 then
                      add_note (UsedFallback fallback_col)
                        (res\<lparr>counter_column_used := Some fallback_col,
                             counter_keyword_used := Some fallback_keyword,
                             counter_current_value := Some fallback_val,
                             counter_previous_value := Some prev_fallback,
                             counter_change := Some change\<rparr>)
                    else res)
             else res)
      else res)"

text \<open>Lines 251--254: \<^verbatim>\<open>if result['counter_change'] < 0\<close>, the clamp.\<close>

definition clamp_negative :: "production_result \<Rightarrow> production_result" where
  "clamp_negative res =
     (case counter_change res of
        None \<Rightarrow> res
      | Some c \<Rightarrow> if c < 0 then add_note ChangeSetToZero (res\<lparr>counter_change := Some 0\<rparr>) else res)"

text \<open>Lines 222--254: the branch \<^verbatim>\<open>if change < 0\<close>.\<close>

definition negative_change ::
  "wafer_config \<Rightarrow> counter_row \<Rightarrow> counter_row \<Rightarrow> string \<Rightarrow> real \<Rightarrow> real \<Rightarrow> string \<Rightarrow> real
     \<Rightarrow> production_result \<Rightarrow> production_result"
where
  "negative_change cfg current_row previous_row counter_col current_val previous_val keyword change res =
     (if detect_part_replacement cfg change then
        clamp_negative
          (try_fallback cfg current_row previous_row keyword
             (add_note (PartReplacement counter_col previous_val current_val)
                (res\<lparr>part_replacement_detected := True\<rparr>)))
      else res)"

text \<open>
  Python's \<^verbatim>\<open>/\<close> raises on a zero divisor, where HOL's division returns 0; the model keeps the
  error as a value.
\<close>

definition py_div :: "real \<Rightarrow> real \<Rightarrow> py_error + real" where
  "py_div a b = (if b = 0 then Inl ZeroDivisionError else Inr (a / b))"

text \<open>Lines 256--266: wafers produced and wafers per hour.\<close>

definition wafers_and_rate :: "production_result \<Rightarrow> real \<Rightarrow> py_error + production_result" where
  "wafers_and_rate res running_hours =
     (case counter_change res of
        None \<Rightarrow> Inr res
      | Some c \<Rightarrow>
          if c \<ge> 0 then
            (let res1 = res\<lparr>wafers_produced := Some c\<rparr> in
             if running_hours > 0 then
               (case py_div c running_hours of
                  Inl e \<Rightarrow> Inl e
                | Inr q \<Rightarrow> Inr (res1\<lparr>wafers_per_hour := Some q\<rparr>))
             else Inr (add_note NoRunningHours res1))
          else Inr res)"

definition initial_result :: "counter_row \<Rightarrow> real \<Rightarrow> production_result" where
  "initial_result current_row running_hours =
     \<lparr>res_ENTITY = ENTITY current_row,
      res_counter_date = counter_date current_row,
      counter_column_used = None,
      counter_keyword_used = None,
      counter_current_value = None,
      counter_previous_value = None,
      counter_change = None,
      part_replacement_detected = False,
      wafers_produced = None,
      res_running_hours = running_hours,
      wafers_per_hour = None,
      calculation_notes = []\<rparr>"

definition calculate_wafer_production_single_row ::
  "wafer_config \<Rightarrow> counter_row \<Rightarrow> counter_row option \<Rightarrow> real \<Rightarrow> py_error + production_result"
where
  "calculate_wafer_production_single_row cfg current_row previous_row running_hours =
     (let res = initial_result current_row running_hours;
          all_keywords = primary_keywords cfg @ fallback_keywords cfg
      in case find_counter_column (columns current_row) all_keywords of
           None \<Rightarrow> Inr (add_note NoCounterFound res)
         | Some (counter_col, current_val, keyword) \<Rightarrow>
             let res1 = res\<lparr>counter_column_used := Some counter_col,
                            counter_keyword_used := Some keyword,
                            counter_current_value := Some current_val\<rparr>
             in case previous_row of
                  None \<Rightarrow> Inr (add_note FirstDay res1)
                | Some prev \<Rightarrow>
                    if counter_col \<notin> set (row_index (columns prev)) then
                      Inr (add_note (NotInPreviousRow counter_col) res1)
                    else
                      (case row_get (columns prev) counter_col of
                         None \<Rightarrow> Inr (add_note PreviousValueNull res1)
                       | Some previous_val \<Rightarrow>
                           let change = current_val - previous_val;
                               res2 = res1\<lparr>counter_previous_value := Some previous_val,
                                           counter_change := Some change\<rparr>;
                               res3 = (if change < 0
                                       then negative_change cfg current_row prev counter_col
                                              current_val previous_val keyword change res2
                                       else res2)
                           in wafers_and_rate res3 running_hours))"

section \<open>Daily state hours, as the differencer reads them\<close>

text \<open>A row of the state-hours table returned by \<^verbatim>\<open>calculate_daily_state_hours\<close>.\<close>

record state_hours_row =
  sh_ENTITY :: string
  sh_FAB :: string
  sh_FAB_ENTITY :: string
  state_date :: date
  running_hours :: real
  idle_hours :: real
  down_hours :: real
  bagged_hours :: real
  total_hours :: real
  is_bagged :: bool

text \<open>
  \<^verbatim>\<open>calculate_for_dataframe\<close>, lines 304--309: the rows of the state-hours table with the
  entity and the date of the current row; the running hours of the first of them, 0 when
  there is none.
\<close>

definition lookup_running_hours :: "state_hours_row list \<Rightarrow> string \<Rightarrow> date \<Rightarrow> real" where
  "lookup_running_hours state_hours_df entity d =
     (case filter (\<lambda>s. sh_ENTITY s = entity \<and> state_date s = d) state_hours_df of
        [] \<Rightarrow> 0
      | s # _ \<Rightarrow> running_hours s)"


section \<open>State hours: \<^verbatim>\<open>StateHoursCalculator\<close>\<close>

text \<open>
  A row of the EntityStates table, with the columns \<^verbatim>\<open>calculate_daily_state_hours\<close> reads.
  \<^verbatim>\<open>ENTITY_STATE\<close>, \<^verbatim>\<open>HOURS_IN_STATE\<close> and \<^verbatim>\<open>DAY_SHIFT\<close> may be null (\<open>None\<close>); the three key columns
  are strings. Characters are the code points below 256.
\<close>

record raw_state_record =
  raw_ENTITY :: string
  raw_FAB :: string
  raw_FAB_ENTITY :: string
  ENTITY_STATE :: "string option"
  HOURS_IN_STATE :: "real option"
  DAY_SHIFT :: "string option"

text \<open>\<^verbatim>\<open>config['entity_states']\<close>, as \<^verbatim>\<open>__init__\<close> reads it (lines 41--44).\<close>

record state_config =
  running_states :: "string list"
  idle_states :: "string list"
  bagged_state :: string

datatype state_category = Running | Idle | Down | Bagged

subsection \<open>\<^verbatim>\<open>classify_state\<close>\<close>

text \<open>The characters \<^verbatim>\<open>str.strip()\<close> removes: those for which \<^verbatim>\<open>str.isspace\<close> holds.\<close>

definition py_isspace :: "char \<Rightarrow> bool" where
  "py_isspace c = ((of_char c :: nat) \<in> set [9, 10, 11, 12, 13, 28, 29, 30, 31, 32, 133, 160])"

definition py_strip :: "string \<Rightarrow> string" where
  "py_strip s = rev (dropWhile py_isspace (rev (dropWhile py_isspace s)))"

text \<open>Lines 117--137. The entity and the date are only logged.\<close>

definition classify_state :: "state_config \<Rightarrow> string option \<Rightarrow> state_category" where
  "classify_state cfg entity_state =
     (case entity_state of
        None \<Rightarrow> Down
      | Some raw \<Rightarrow>
          (let state = py_strip raw in
           if state = bagged_state cfg then Bagged
           else if state \<in> set (running_states cfg) then Running
           else if state \<in> set (idle_states cfg) then Idle
           else Down))"

subsection \<open>\<^verbatim>\<open>datetime.strptime\<close> for the directives of lines 81--83\<close>

definition is_digit :: "char \<Rightarrow> bool" where
  "is_digit c = (c \<in> set ''0123456789'')"

definition digit_val :: "char \<Rightarrow> nat" where
  "digit_val c = of_char c - 48"

fun digits_val :: "string \<Rightarrow> nat" where
  "digits_val cs = foldl (\<lambda>n c. 10 * n + digit_val c) 0 cs"

text \<open>
  One alternative of a directive's regular expression: the characters of the data are tested
  one by one against the character classes \<open>cls\<close>; a match gives the number read and the rest
  of the data.
\<close>

fun alt :: "string list \<Rightarrow> string \<Rightarrow> string \<Rightarrow> (nat \<times> string) list" where
  "alt [] seen s = [(digits_val (filter is_digit (rev seen)), s)]"
| "alt (cl # cls) seen [] = []"
| "alt (cl # cls) seen (c # s) = (if c \<in> set cl then alt cls (c # seen) s else [])"

text \<open>
  The regular expressions of \<^verbatim>\<open>_strptime.TimeRE\<close>, alternatives in the order the matcher tries
  them: \<^verbatim>\<open>%m\<close> is \<^verbatim>\<open>1[0-2]|0[1-9]|[1-9]\<close>, \<^verbatim>\<open>%d\<close> is \<^verbatim>\<open>3[0-1]|[1-2]\d|0[1-9]|[1-9]| [1-9]\<close>,
  \<^verbatim>\<open>%Y\<close> is \<^verbatim>\<open>\d\d\d\d\<close>, \<^verbatim>\<open>%y\<close> is \<^verbatim>\<open>\d\d\<close>. Other directives do not occur in the source.
\<close>

definition directive :: "char \<Rightarrow> string \<Rightarrow> (nat \<times> string) list" where
  "directive d s =
     (if d = CHR ''m'' then
        alt [''1'', ''012''] [] s @ alt [''0'', ''123456789''] [] s @ alt [''123456789''] [] s
      else if d = CHR ''d'' then
        alt [''3'', ''01''] [] s @ alt [''12'', ''0123456789''] [] s @
        alt [''0'', ''123456789''] [] s @ alt [''123456789''] [] s @
        alt ['' '', ''123456789''] [] s
      else if d = CHR ''Y'' then
        alt [''0123456789'', ''0123456789'', ''0123456789'', ''0123456789''] [] s
      else if d = CHR ''y'' then
        alt [''0123456789'', ''0123456789''] [] s
      else [])"

text \<open>
  All matches of a format at the start of the data, in the order a backtracking matcher finds
  them: the fields read (directive character and number) and the data left over.
\<close>

fun match_format :: "string \<Rightarrow> string \<Rightarrow> ((char \<times> nat) list \<times> string) list" where
  "match_format [] s = [([], s)]"
| "match_format [c] s =
     (case s of [] \<Rightarrow> [] | a # r \<Rightarrow> if a = c \<and> c \<noteq> CHR ''%'' then [([], r)] else [])"
| "match_format (c # d # f) s =
     (if c = CHR ''%'' then
        concat (map (\<lambda>(v, r). map (\<lambda>(fs, r'). ((d, v) # fs, r')) (match_format f r))
                    (directive d s))
      else (case s of [] \<Rightarrow> [] | a # r \<Rightarrow> if a = c then match_format (d # f) r else []))"

definition is_leap :: "nat \<Rightarrow> bool" where
  "is_leap y = (y mod 4 = 0 \<and> (y mod 100 \<noteq> 0 \<or> y mod 400 = 0))"

definition days_in_month :: "nat \<Rightarrow> nat \<Rightarrow> nat" where
  "days_in_month y m =
     (if m = 2 then (if is_leap y then 29 else 28)
      else if m \<in> set [4, 6, 9, 11] then 30 else 31)"

text \<open>The dates the \<^verbatim>\<open>datetime\<close> constructor accepts; any other raises \<^verbatim>\<open>ValueError\<close>.\<close>

definition valid_date :: "date \<Rightarrow> bool" where
  "valid_date dt =
     (case dt of (y, m, d) \<Rightarrow>
        1 \<le> y \<and> y \<le> 9999 \<and> 1 \<le> m \<and> m \<le> 12 \<and> 1 \<le> d \<and> d \<le> days_in_month y m)"

text \<open>
  \<^verbatim>\<open>datetime.strptime(data, fmt)\<close>, \<open>None\<close> for \<^verbatim>\<open>ValueError\<close>: the first match of the format must
  use up the data; a two-digit year up to 68 is in 2000--2068, from 69 in 1969--1999; without
  a year the date is built in 1900, so that 29 February is refused; month and day default to 1.
\<close>

definition strptime :: "string \<Rightarrow> string \<Rightarrow> date option" where
  "strptime data fmt =
     (case match_format fmt data of
        [] \<Rightarrow> None
      | (fs, rest) # _ \<Rightarrow>
          if rest \<noteq> [] then None
          else
            (let year = (case map_of fs (CHR ''Y'') of
                           Some y \<Rightarrow> y
                         | None \<Rightarrow>
                             (case map_of fs (CHR ''y'') of
                                Some y \<Rightarrow> (if y \<le> 68 then y + 2000 else y + 1900)
                              | None \<Rightarrow> 1900));
                 month = (case map_of fs (CHR ''m'') of Some m \<Rightarrow> m | None \<Rightarrow> 1);
                 day = (case map_of fs (CHR ''d'') of Some d \<Rightarrow> d | None \<Rightarrow> 1)
             in if valid_date (year, month, day) then Some (year, month, day) else None))"

subsection \<open>\<^verbatim>\<open>parse_day_shift_to_date\<close>\<close>

text \<open>\<^verbatim>\<open>parsed.replace(year=current_year)\<close>, \<open>None\<close> for \<^verbatim>\<open>ValueError\<close>.\<close>

definition replace_year :: "date \<Rightarrow> nat \<Rightarrow> date option" where
  "replace_year dt y =
     (case dt of (_, m, d) \<Rightarrow> if valid_date (y, m, d) then Some (y, m, d) else None)"

text \<open>
  The loop of lines 81--90 over the formats still to try; \<open>current_year\<close> is
  \<^verbatim>\<open>datetime.now().year\<close>. A \<^verbatim>\<open>ValueError\<close> goes on to the next format.
\<close>

fun try_formats :: "nat \<Rightarrow> string \<Rightarrow> string list \<Rightarrow> date option" where
  "try_formats current_year date_part [] = None"
| "try_formats current_year date_part (fmt # fmts) =
     (case strptime date_part fmt of
        None \<Rightarrow> try_formats current_year date_part fmts
      | Some parsed \<Rightarrow>
          if fmt = ''%m/%d'' then
            (case replace_year parsed current_year of
               None \<Rightarrow> try_formats current_year date_part fmts
             | Some dt \<Rightarrow> Some dt)
          else Some parsed)"

definition date_formats :: "string list" where
  "date_formats = [''%m/%d/%Y'', ''%m/%d/%y'', ''%m/%d'']"

text \<open>Lines 73--97: a null day shift has no date; the date part is the text before the first dash.\<close>

definition parse_day_shift_to_date :: "nat \<Rightarrow> string option \<Rightarrow> date option" where
  "parse_day_shift_to_date current_year day_shift =
     (case day_shift of
        None \<Rightarrow> None
      | Some s \<Rightarrow> try_formats current_year (takeWhile (\<lambda>c. c \<noteq> CHR ''-'') s) date_formats)"

subsection \<open>\<^verbatim>\<open>calculate_daily_state_hours\<close>\<close>

text \<open>Lines 157--161: the date of every record, and only the records that have one.\<close>

definition with_state_date :: "nat \<Rightarrow> raw_state_record list \<Rightarrow> (raw_state_record \<times> date) list" where
  "with_state_date current_year entity_states_df =
     concat (map (\<lambda>r. case parse_day_shift_to_date current_year (DAY_SHIFT r) of
                         None \<Rightarrow> []
                       | Some d \<Rightarrow> [(r, d)])
                 entity_states_df)"

type_synonym group_key = "string \<times> string \<times> string \<times> date"

definition group_key_of :: "raw_state_record \<times> date \<Rightarrow> group_key" where
  "group_key_of rd = (raw_ENTITY (fst rd), raw_FAB (fst rd), raw_FAB_ENTITY (fst rd), snd rd)"

text \<open>
  Lines 168--176: the sum of \<^verbatim>\<open>HOURS_IN_STATE\<close> over the records of one group and one category;
  a null value adds nothing.
\<close>

definition hours_in :: "state_config \<Rightarrow> (raw_state_record \<times> date) list \<Rightarrow> group_key \<Rightarrow>
    state_category \<Rightarrow> real" where
  "hours_in cfg dated k cat =
     sum_list (map (\<lambda>rd. case HOURS_IN_STATE (fst rd) of None \<Rightarrow> 0 | Some h \<Rightarrow> h)
                   (filter (\<lambda>rd. group_key_of rd = k \<and>
                                  classify_state cfg (ENTITY_STATE (fst rd)) = cat) dated))"

text \<open>
  Lines 179--207: one row for each group, a category without records at 0, then the total
  and the bagged flag.
\<close>

definition pivot_row :: "state_config \<Rightarrow> (raw_state_record \<times> date) list \<Rightarrow> group_key \<Rightarrow>
    state_hours_row" where
  "pivot_row cfg dated k =
     (case k of (entity, fab, fab_entity, d) \<Rightarrow>
        (let running = hours_in cfg dated k Running;
             idle = hours_in cfg dated k Idle;
             down = hours_in cfg dated k Down;
             bagged = hours_in cfg dated k Bagged
         in \<lparr>sh_ENTITY = entity, sh_FAB = fab, sh_FAB_ENTITY = fab_entity, state_date = d,
             running_hours = running, idle_hours = idle, down_hours = down,
             bagged_hours = bagged,
             total_hours = running + idle + down + bagged,
             is_bagged = (bagged > 0)\<rparr>))"

text \<open>The groups in the order \<^verbatim>\<open>groupby\<close> and \<^verbatim>\<open>pivot_table\<close> give them: sorted by key.\<close>

definition state_hours_pivot :: "state_config \<Rightarrow> (raw_state_record \<times> date) list \<Rightarrow>
    state_hours_row list" where
  "state_hours_pivot cfg dated =
     map (pivot_row cfg dated) (sort (remdups (map group_key_of dated)))"

text \<open>
  Line 221, \<^verbatim>\<open>drop_duplicates(subset=['ENTITY', 'state_date'], keep='last')\<close>: a row is dropped
  when a later row has its entity and date.
\<close>

definition dedup_key :: "state_hours_row \<Rightarrow> string \<times> date" where
  "dedup_key s = (sh_ENTITY s, state_date s)"

fun drop_duplicates_last :: "state_hours_row list \<Rightarrow> state_hours_row list" where
  "drop_duplicates_last [] = []"
| "drop_duplicates_last (x # xs) =
     (if dedup_key x \<in> set (map dedup_key xs) then drop_duplicates_last xs
      else x # drop_duplicates_last xs)"

definition calculate_daily_state_hours :: "state_config \<Rightarrow> nat \<Rightarrow> raw_state_record list \<Rightarrow>
    state_hours_row list" where
  "calculate_daily_state_hours cfg current_year entity_states_df =
     drop_duplicates_last (state_hours_pivot cfg (with_state_date current_year entity_states_df))"

text \<open>
  The condition of the specification on one field of a row, for a keyword: the name contains
  the keyword, ends in "Counter", and the value is present and above 0. It is stated on the
  field itself, while the code reads the value back through the label.
\<close>

definition usable :: "string \<Rightarrow> string \<times> real option \<Rightarrow> bool" where
  "usable keyword f =
     (name_matches keyword (fst f) \<and>
      (case snd f of None \<Rightarrow> False | Some v \<Rightarrow> v > 0))"

definition positive_at :: "row \<Rightarrow> string \<Rightarrow> bool" where
  "positive_at r c = (case row_get r c of None \<Rightarrow> False | Some v \<Rightarrow> v > 0)"


text \<open>
  The condition under which lines 232--249 rewrite the result: the keyword first selected is
  a primary one, the fallback search finds a column, that column is in the previous row with
  a value, and the fallback's own difference is not negative.
\<close>

definition fallback_recovers :: "wafer_config \<Rightarrow> counter_row \<Rightarrow> counter_row \<Rightarrow> string \<Rightarrow> bool" where
  "fallback_recovers cfg current_row previous_row keyword =
     (keyword \<in> set (primary_keywords cfg) \<and>
      (case find_counter_column (columns current_row) (fallback_keywords cfg) of
         None \<Rightarrow> False
       | Some (fallback_col, fallback_val, fallback_keyword) \<Rightarrow>
           fallback_col \<in> set (row_index (columns previous_row)) \<and>
           (case row_get (columns previous_row) fallback_col of
              None \<Rightarrow> False
            | Some prev_fallback \<Rightarrow> fallback_val - prev_fallback \<ge> 0)))"

text \<open>The result after lines 196--199: the discovered column recorded, nothing computed yet.\<close>

definition found_result :: "counter_row \<Rightarrow> real \<Rightarrow> string \<Rightarrow> real \<Rightarrow> string \<Rightarrow> production_result" where
  "found_result current_row hours counter_col current_val keyword =
     (initial_result current_row hours)
       \<lparr>counter_column_used := Some counter_col,
        counter_keyword_used := Some keyword,
        counter_current_value := Some current_val\<rparr>"

text \<open>The result after lines 218--220: previous value and change recorded.\<close>

definition with_previous ::
  "counter_row \<Rightarrow> real \<Rightarrow> string \<Rightarrow> real \<Rightarrow> string \<Rightarrow> real \<Rightarrow> production_result" where
  "with_previous current_row hours counter_col current_val keyword previous_val =
     (found_result current_row hours counter_col current_val keyword)
       \<lparr>counter_previous_value := Some previous_val,
        counter_change := Some (current_val - previous_val)\<rparr>"


subsection \<open>The classification as the specification words it\<close>

text \<open>
  The contract of the specification, read on the value it is given: the bagged-state name
  first, then the running set, then the idle set, anything else and a missing value Down.
\<close>

definition classify_spec :: "state_config \<Rightarrow> string option \<Rightarrow> state_category" where
  "classify_spec cfg v =
     (case v of
        None \<Rightarrow> Down
      | Some s \<Rightarrow>
          if s = bagged_state cfg then Bagged
          else if s \<in> set (running_states cfg) then Running
          else if s \<in> set (idle_states cfg) then Idle
          else Down)"

text \<open>The first date among the results of the formats, in the order they are tried.\<close>

fun first_parsed :: "date option list \<Rightarrow> date option" where
  "first_parsed [] = None"
| "first_parsed (None # rs) = first_parsed rs"
| "first_parsed (Some d # rs) = Some d"

section \<open>Example inputs\<close>

text \<open>
  The scenarios of the specification's testable properties, as concrete rows: one entity,
  a primary keyword "Focus", a fallback keyword "APC" and the threshold -1000.
\<close>

definition example_config :: wafer_config where
  "example_config =
     \<lparr>primary_keywords = [''Focus''], fallback_keywords = [''APC''],
      replacement_threshold = - 1000\<rparr>"

definition example_row :: "nat \<Rightarrow> row \<Rightarrow> counter_row" where
  "example_row day cols = \<lparr>ENTITY = ''E1'', counter_date = (2024, 1, day), columns = cols\<rparr>"

definition example_state_hours :: "state_hours_row list" where
  "example_state_hours =
     [\<lparr>sh_ENTITY = ''E1'', sh_FAB = ''F1'', sh_FAB_ENTITY = ''F1_E1'', state_date = (2024, 1, 5),
       running_hours = 5, idle_hours = 2, down_hours = 1, bagged_hours = 0, total_hours = 8,
       is_bagged = False\<rparr>]"

definition example_state_config :: state_config where
  "example_state_config =
     \<lparr>running_states = [''Running'', ''Processing''], idle_states = [''Idle''],
      bagged_state = ''Bagged''\<rparr>"

definition example_state_record ::
    "string \<Rightarrow> string \<Rightarrow> string option \<Rightarrow> real option \<Rightarrow> string \<Rightarrow> raw_state_record" where
  "example_state_record entity fab st h ds =
     \<lparr>raw_ENTITY = entity, raw_FAB = fab, raw_FAB_ENTITY = fab @ ''_'' @ entity,
      ENTITY_STATE = st, HOURS_IN_STATE = h, DAY_SHIFT = Some ds\<rparr>"

definition example_states :: "raw_state_record list" where
  "example_states =
     [example_state_record ''E1'' ''F1'' (Some ''Running'') (Some 5) ''1/5/2024-D'',
      example_state_record ''E1'' ''F1'' (Some ''Idle'') (Some 2) ''1/5/24-N'',
      example_state_record ''E1'' ''F2'' (Some ''Bagged'') (Some 3) ''01/05/2024-D'',
      example_state_record ''E2'' ''F1'' None (Some 4) ''shift-N'',
      example_state_record ''E1'' ''F1'' (Some ''Repair'') None ''1/5/2024-N'']"

section \<open>Counter discovery: the first usable field\<close>

lemma row_get_distinct:
  "distinct (row_index r) \<Longrightarrow> (c, x) \<in> set r \<Longrightarrow> row_get r c = x"
  by (simp add: row_get_def row_index_def)

lemma first_usable_None:
  "first_usable r cs = None \<longleftrightarrow> (\<forall>c\<in>set cs. \<not> positive_at r c)"
  by (induction cs) (auto simp: positive_at_def split: option.splits)

lemma first_usable_skip:
  "\<forall>c\<in>set cs1. \<not> positive_at r c \<Longrightarrow> first_usable r (cs1 @ cs2) = first_usable r cs2"
  by (induction cs1) (auto simp: positive_at_def split: option.splits)

lemma first_usable_hit:
  "row_get r c = Some v \<Longrightarrow> v > 0 \<Longrightarrow> first_usable r (c # cs) = Some (c, v)"
  by simp

lemma positive_at_field:
  "distinct (row_index r) \<Longrightarrow> f \<in> set r \<Longrightarrow>
     positive_at r (fst f) = (case snd f of None \<Rightarrow> False | Some v \<Rightarrow> v > 0)"
  using row_get_distinct [of r "fst f" "snd f"] by (simp add: positive_at_def)

lemma matching_cols_field:
  "c \<in> set (matching_cols r k) \<longleftrightarrow>
     (\<exists>f\<in>set r. fst f = c \<and> name_matches k c)"
  by (auto simp: matching_cols_def row_index_def)

lemma usable_iff:
  assumes "distinct (row_index r)" and "f \<in> set r"
  shows "usable k f \<longleftrightarrow> name_matches k (fst f) \<and> positive_at r (fst f)"
  unfolding usable_def positive_at_field [OF assms] by (rule refl)

lemma first_usable_matching_None:
  assumes "distinct (row_index r)"
  shows "first_usable r (matching_cols r k) = None \<longleftrightarrow> (\<forall>f\<in>set r. \<not> usable k f)"
proof
  assume n: "first_usable r (matching_cols r k) = None"
  show "\<forall>f\<in>set r. \<not> usable k f"
  proof
    fix f assume f: "f \<in> set r"
    show "\<not> usable k f"
    proof
      assume "usable k f"
      then have u: "name_matches k (fst f)" "positive_at r (fst f)"
        using usable_iff [OF assms f] by simp_all
      from f u(1) have "fst f \<in> set (matching_cols r k)"
        unfolding matching_cols_field by blast
      with n u(2) show False unfolding first_usable_None by blast
    qed
  qed
next
  assume n: "\<forall>f\<in>set r. \<not> usable k f"
  have "\<not> positive_at r c" if "c \<in> set (matching_cols r k)" for c
  proof -
    from that obtain f where f: "f \<in> set r" "fst f = c" "name_matches k c"
      unfolding matching_cols_field by blast
    from n f(1) have "\<not> usable k f" by blast
    with usable_iff [OF assms f(1)] f(2,3) show ?thesis by simp
  qed
  then show "first_usable r (matching_cols r k) = None"
    unfolding first_usable_None by blast
qed

lemma first_usable_matching_SomeI:
  assumes d: "distinct (row_index r)"
    and r: "r = r1 @ (col, Some v) # r2"
    and u: "usable k (col, Some v)"
    and n: "\<forall>f\<in>set r1. \<not> usable k f"
  shows "first_usable r (matching_cols r k) = Some (col, v)"
proof -
  let ?P = "name_matches k"
  have m: "matching_cols r k = filter ?P (map fst r1) @ col # filter ?P (map fst r2)"
    using u by (simp add: matching_cols_def row_index_def r usable_def)
  have "\<not> positive_at r c" if "c \<in> set (filter ?P (map fst r1))" for c
  proof -
    from that obtain f where f: "f \<in> set r1" "fst f = c" "?P c" by auto
    then have "f \<in> set r" by (simp add: r)
    from f(1) n have "\<not> usable k f" by blast
    with usable_iff [OF d \<open>f \<in> set r\<close>] f(2,3) show ?thesis by simp
  qed
  then have "first_usable r (matching_cols r k) = first_usable r (col # filter ?P (map fst r2))"
    unfolding m by (intro first_usable_skip) blast
  moreover have "row_get r col = Some v"
    by (rule row_get_distinct [OF d]) (simp add: r)
  moreover have "v > 0" using u by (simp add: usable_def)
  ultimately show ?thesis by simp
qed

lemma first_usable_filter_SomeD:
  assumes "\<forall>f\<in>set r'. row_get r0 (fst f) = snd f"
    and "first_usable r0 (filter P (map fst r')) = Some (c, v)"
  shows "\<exists>r1 r2. r' = r1 @ (c, Some v) # r2 \<and> P c \<and> v > 0 \<and>
           (\<forall>f\<in>set r1. \<not> (P (fst f) \<and> positive_at r0 (fst f)))"
  using assms
proof (induction r')
  case Nil
  then show ?case by simp
next
  case (Cons f r')
  from Cons.prems(1) have sf: "row_get r0 (fst f) = snd f" by simp
  from Cons.prems(1) have rest: "\<forall>g\<in>set r'. row_get r0 (fst g) = snd g" by simp
  show ?case
  proof (cases "P (fst f) \<and> positive_at r0 (fst f)")
    case True
    then obtain w where w: "row_get r0 (fst f) = Some w" "w > 0"
      by (auto simp: positive_at_def split: option.splits)
    from True have "filter P (map fst (f # r')) = fst f # filter P (map fst r')" by simp
    with Cons.prems(2) have "first_usable r0 (fst f # filter P (map fst r')) = Some (c, v)"
      by simp
    with w have cv: "fst f = c" "w = v" by simp_all
    from sf w(1) cv(2) have "snd f = Some v" by simp
    with cv(1) have "f = (c, Some v)" by (cases f) simp
    moreover from True cv(1) have "P c" by simp
    moreover from w(2) cv(2) have "v > 0" by simp
    ultimately have "f # r' = [] @ (c, Some v) # r' \<and> P c \<and> v > 0 \<and>
           (\<forall>f\<in>set []. \<not> (P (fst f) \<and> positive_at r0 (fst f)))" by simp
    then show ?thesis by blast
  next
    case False
    have "first_usable r0 (filter P (map fst (f # r'))) = first_usable r0 (filter P (map fst r'))"
      using False by (auto simp: positive_at_def split: option.splits)
    with Cons.prems(2) have "first_usable r0 (filter P (map fst r')) = Some (c, v)" by simp
    from Cons.IH [OF rest this] obtain r1 r2 where
      h: "r' = r1 @ (c, Some v) # r2" "P c" "v > 0"
         "\<forall>f\<in>set r1. \<not> (P (fst f) \<and> positive_at r0 (fst f))"
      by blast
    from h(4) False have "\<forall>g\<in>set (f # r1). \<not> (P (fst g) \<and> positive_at r0 (fst g))" by simp
    with h(1,2,3) have "f # r' = (f # r1) @ (c, Some v) # r2 \<and> P c \<and> v > 0 \<and>
           (\<forall>g\<in>set (f # r1). \<not> (P (fst g) \<and> positive_at r0 (fst g)))" by simp
    then show ?thesis by blast
  qed
qed


lemma first_usable_matching_SomeD:
  assumes d: "distinct (row_index r)"
    and s: "first_usable r (matching_cols r k) = Some (col, v)"
  shows "\<exists>r1 r2. r = r1 @ (col, Some v) # r2 \<and> usable k (col, Some v) \<and>
           (\<forall>f\<in>set r1. \<not> usable k f)"
proof -
  have H: "\<forall>f\<in>set r. row_get r (fst f) = snd f"
  proof
    fix f assume "f \<in> set r"
    then have "(fst f, snd f) \<in> set r" by simp
    from row_get_distinct [OF d this] show "row_get r (fst f) = snd f" .
  qed
  from s have "first_usable r (filter (name_matches k) (map fst r)) = Some (col, v)"
    by (simp only: matching_cols_def row_index_def)
  from first_usable_filter_SomeD [OF H this] obtain r1 r2 where
    h: "r = r1 @ (col, Some v) # r2" "name_matches k col" "v > 0"
       "\<forall>f\<in>set r1. \<not> (name_matches k (fst f) \<and> positive_at r (fst f))"
    by blast
  have u: "usable k (col, Some v)" using h(2,3) by (simp add: usable_def)
  have nu: "\<forall>f\<in>set r1. \<not> usable k f"
  proof
    fix f assume f: "f \<in> set r1"
    have "set r1 \<subseteq> set r" by (subst h(1)) auto
    with f have fr: "f \<in> set r" by blast
    from h(4) f have "\<not> (name_matches k (fst f) \<and> positive_at r (fst f))" by blast
    then show "\<not> usable k f" unfolding usable_iff [OF d fr] .
  qed
  from h(1) u nu show ?thesis by blast
qed

lemma find_counter_column_None:
  assumes d: "distinct (row_index r)"
  shows "find_counter_column r kws = None \<longleftrightarrow>
           (\<forall>k\<in>set kws. \<forall>f\<in>set r. \<not> usable k f)"
proof (induction kws)
  case Nil
  show ?case by simp
next
  case (Cons a ks)
  have "find_counter_column r (a # ks) = None \<longleftrightarrow>
          first_usable r (matching_cols r a) = None \<and> find_counter_column r ks = None"
    by (simp split: option.splits)
  then show ?case
    unfolding Cons.IH first_usable_matching_None [OF d] by simp
qed

lemma find_counter_column_SomeI:
  assumes d: "distinct (row_index r)"
    and r: "r = r1 @ (col, Some v) # r2"
    and u: "usable k (col, Some v)"
    and n: "\<forall>f\<in>set r1. \<not> usable k f"
    and e: "\<forall>k'\<in>set ks1. \<forall>f\<in>set r. \<not> usable k' f"
  shows "find_counter_column r (ks1 @ k # ks2) = Some (col, v, k)"
  using e
proof (induction ks1)
  case Nil
  from first_usable_matching_SomeI [OF d r u n] show ?case by simp
next
  case (Cons a ks1)
  from Cons.prems have "\<forall>f\<in>set r. \<not> usable a f" by simp
  then have "first_usable r (matching_cols r a) = None"
    unfolding first_usable_matching_None [OF d] .
  moreover from Cons.prems have "\<forall>k'\<in>set ks1. \<forall>f\<in>set r. \<not> usable k' f" by simp
  from Cons.IH [OF this] have "find_counter_column r (ks1 @ k # ks2) = Some (col, v, k)" .
  ultimately show ?case by simp
qed

lemma find_counter_column_SomeD:
  assumes d: "distinct (row_index r)"
    and s: "find_counter_column r kws = Some (col, v, k)"
  shows "\<exists>ks1 ks2 r1 r2. kws = ks1 @ k # ks2 \<and> r = r1 @ (col, Some v) # r2 \<and>
           usable k (col, Some v) \<and> (\<forall>k'\<in>set ks1. \<forall>f\<in>set r. \<not> usable k' f) \<and>
           (\<forall>f\<in>set r1. \<not> usable k f)"
  using s
proof (induction kws)
  case Nil
  then show ?case by simp
next
  case (Cons a ks)
  show ?case
  proof (cases "first_usable r (matching_cols r a)")
    case None
    with Cons.prems have "find_counter_column r ks = Some (col, v, k)" by simp
    from Cons.IH [OF this] obtain ks1 ks2 r1 r2 where
      h: "ks = ks1 @ k # ks2" "r = r1 @ (col, Some v) # r2" "usable k (col, Some v)"
         "\<forall>k'\<in>set ks1. \<forall>f\<in>set r. \<not> usable k' f" "\<forall>f\<in>set r1. \<not> usable k f"
      by blast
    from None have "\<forall>f\<in>set r. \<not> usable a f"
      unfolding first_usable_matching_None [OF d] .
    with h(4) have "\<forall>k'\<in>set (a # ks1). \<forall>f\<in>set r. \<not> usable k' f" by simp
    moreover from h(1) have "a # ks = (a # ks1) @ k # ks2" by simp
    ultimately show ?thesis using h(2,3,5) by blast
  next
    case (Some p)
    obtain c w where p: "p = (c, w)" by (cases p)
    from Cons.prems Some p have "c = col" "w = v" "a = k" by simp_all
    with Some p have "first_usable r (matching_cols r k) = Some (col, v)" by simp
    from first_usable_matching_SomeD [OF d this] obtain r1 r2 where
      h: "r = r1 @ (col, Some v) # r2" "usable k (col, Some v)" "\<forall>f\<in>set r1. \<not> usable k f"
      by blast
    have "a # ks = [] @ k # ks" using \<open>a = k\<close> by simp
    moreover have "\<forall>k'\<in>set []. \<forall>f\<in>set r. \<not> usable k' f" by simp
    ultimately show ?thesis using h by blast
  qed
qed

text \<open>
  Claim C1, its example. The specification's row \<open>{"XApcCounter": 0, "XApcCounter2": 50}\<close>
  with keyword "Apc" is said to give ("XApcCounter2", 50, "Apc"). The name "XApcCounter2" ends
  in "Counter2", not in "Counter", so \<^verbatim>\<open>col.endswith('Counter')\<close> rejects it; the only
  matching column holds 0, and the search reports that nothing was found.
\<close>

theorem C1_spec_example_not_found:
  "find_counter_column [(''XApcCounter'', Some 0), (''XApcCounter2'', Some 50)] [''Apc''] = None
   \<and> find_counter_column [(''XApcCounter'', Some 0), (''XApcCounter2'', Some 50)] [''Apc'']
       \<noteq> Some (''XApcCounter2'', 50, ''Apc'')"
  by (simp add: matching_cols_def name_matches_def row_index_def row_get_def
        sublist_Cons_right suffix_to_prefix)

text \<open>
  Claim C1, amended: for a row with distinct labels, counter discovery returns nothing exactly
  when no keyword has a usable field, and it returns (col, v, k) exactly when k is the first
  keyword of the list that has a usable field and (col, v) is the first usable field for k in
  the order of the row; a usable field has a name that contains the keyword and ends in
  "Counter", and a value that is present and above 0.
\<close>

theorem C1_find_counter_column_first_usable:
  assumes "distinct (row_index r)"
  shows "(find_counter_column r kws = None \<longleftrightarrow> (\<forall>k\<in>set kws. \<forall>f\<in>set r. \<not> usable k f)) \<and>
         (find_counter_column r kws = Some (col, v, k) \<longleftrightarrow>
            (\<exists>ks1 ks2 r1 r2. kws = ks1 @ k # ks2 \<and> r = r1 @ (col, Some v) # r2 \<and>
               usable k (col, Some v) \<and> (\<forall>k'\<in>set ks1. \<forall>f\<in>set r. \<not> usable k' f) \<and>
               (\<forall>f\<in>set r1. \<not> usable k f)))"
proof (intro conjI iffI)
  assume "find_counter_column r kws = None"
  then show "\<forall>k\<in>set kws. \<forall>f\<in>set r. \<not> usable k f"
    unfolding find_counter_column_None [OF assms] .
next
  assume "\<forall>k\<in>set kws. \<forall>f\<in>set r. \<not> usable k f"
  then show "find_counter_column r kws = None"
    unfolding find_counter_column_None [OF assms] .
next
  assume "find_counter_column r kws = Some (col, v, k)"
  from find_counter_column_SomeD [OF assms this]
  show "\<exists>ks1 ks2 r1 r2. kws = ks1 @ k # ks2 \<and> r = r1 @ (col, Some v) # r2 \<and>
          usable k (col, Some v) \<and> (\<forall>k'\<in>set ks1. \<forall>f\<in>set r. \<not> usable k' f) \<and>
          (\<forall>f\<in>set r1. \<not> usable k f)" .
next
  assume "\<exists>ks1 ks2 r1 r2. kws = ks1 @ k # ks2 \<and> r = r1 @ (col, Some v) # r2 \<and>
          usable k (col, Some v) \<and> (\<forall>k'\<in>set ks1. \<forall>f\<in>set r. \<not> usable k' f) \<and>
          (\<forall>f\<in>set r1. \<not> usable k f)"
  then obtain ks1 ks2 r1 r2 where
    h: "kws = ks1 @ k # ks2" "r = r1 @ (col, Some v) # r2" "usable k (col, Some v)"
       "\<forall>k'\<in>set ks1. \<forall>f\<in>set r. \<not> usable k' f" "\<forall>f\<in>set r1. \<not> usable k f"
    by blast
  from find_counter_column_SomeI [OF assms h(2,3,5,4)]
  show "find_counter_column r kws = Some (col, v, k)" unfolding h(1) .
qed

theorem C1_find_counter_column_first_usable_witness:
  "distinct (row_index [(''XApcCounter'', Some 0), (''XApc2Counter'', Some 50)])
   \<and> find_counter_column [(''XApcCounter'', Some 0), (''XApc2Counter'', Some 50)] [''Apc'']
       = Some (''XApc2Counter'', 50, ''Apc'')"
proof -
  let ?r = "[(''XApcCounter'', Some 0), (''XApc2Counter'', Some (50::real))]"
  have d: "distinct (row_index ?r)" by (simp add: row_index_def)
  have "[''Apc''] = [] @ ''Apc'' # [] \<and> ?r = [(''XApcCounter'', Some 0)] @ (''XApc2Counter'', Some 50) # [] \<and>
        usable ''Apc'' (''XApc2Counter'', Some 50) \<and>
        (\<forall>k'\<in>set []. \<forall>f\<in>set ?r. \<not> usable k' f) \<and>
        (\<forall>f\<in>set [(''XApcCounter'', Some (0::real))]. \<not> usable ''Apc'' f)"
    by (simp add: usable_def name_matches_def sublist_Cons_right suffix_to_prefix)
  then have "\<exists>ks1 ks2 r1 r2. [''Apc''] = ks1 @ ''Apc'' # ks2 \<and> ?r = r1 @ (''XApc2Counter'', Some 50) # r2 \<and>
        usable ''Apc'' (''XApc2Counter'', Some 50) \<and>
        (\<forall>k'\<in>set ks1. \<forall>f\<in>set ?r. \<not> usable k' f) \<and>
        (\<forall>f\<in>set r1. \<not> usable ''Apc'' f)"
    by blast
  with C1_find_counter_column_first_usable [OF d, of "[''Apc'']" "''XApc2Counter''" 50 "''Apc''"]
  have "find_counter_column ?r [''Apc''] = Some (''XApc2Counter'', 50, ''Apc'')" by blast
  with d show ?thesis by blast
qed

section \<open>Production differencer: the branches of one row\<close>

lemma wafers_and_rate_Inr:
  "wafers_and_rate res rh =
     Inr (case counter_change res of
            None \<Rightarrow> res
          | Some c \<Rightarrow>
              if c \<ge> 0 then
                (if rh > 0 then res\<lparr>wafers_produced := Some c, wafers_per_hour := Some (c / rh)\<rparr>
                 else add_note NoRunningHours (res\<lparr>wafers_produced := Some c\<rparr>))
              else res)"
  by (simp add: wafers_and_rate_def py_div_def Let_def split: option.splits)

lemma single_row_not_found:
  assumes "find_counter_column (columns cur) (primary_keywords cfg @ fallback_keywords cfg) = None"
  shows "calculate_wafer_production_single_row cfg cur prev rh
           = Inr (add_note NoCounterFound (initial_result cur rh))"
  using assms by (simp add: calculate_wafer_production_single_row_def Let_def)

lemma single_row_first_day:
  assumes "find_counter_column (columns cur) (primary_keywords cfg @ fallback_keywords cfg)
             = Some (col, cv, kw)"
  shows "calculate_wafer_production_single_row cfg cur None rh
           = Inr (add_note FirstDay (found_result cur rh col cv kw))"
  using assms by (simp add: calculate_wafer_production_single_row_def found_result_def Let_def)

lemma single_row_not_in_previous:
  assumes "find_counter_column (columns cur) (primary_keywords cfg @ fallback_keywords cfg)
             = Some (col, cv, kw)"
    and "col \<notin> set (row_index (columns prev))"
  shows "calculate_wafer_production_single_row cfg cur (Some prev) rh
           = Inr (add_note (NotInPreviousRow col) (found_result cur rh col cv kw))"
  using assms by (simp add: calculate_wafer_production_single_row_def found_result_def Let_def)

lemma single_row_previous_null:
  assumes "find_counter_column (columns cur) (primary_keywords cfg @ fallback_keywords cfg)
             = Some (col, cv, kw)"
    and "col \<in> set (row_index (columns prev))"
    and "row_get (columns prev) col = None"
  shows "calculate_wafer_production_single_row cfg cur (Some prev) rh
           = Inr (add_note PreviousValueNull (found_result cur rh col cv kw))"
  using assms by (simp add: calculate_wafer_production_single_row_def found_result_def Let_def)

lemma single_row_with_previous:
  assumes "find_counter_column (columns cur) (primary_keywords cfg @ fallback_keywords cfg)
             = Some (col, cv, kw)"
    and "col \<in> set (row_index (columns prev))"
    and "row_get (columns prev) col = Some pv"
  shows "calculate_wafer_production_single_row cfg cur (Some prev) rh =
           wafers_and_rate
             (if cv - pv < 0
              then negative_change cfg cur prev col cv pv kw (cv - pv)
                     (with_previous cur rh col cv kw pv)
              else with_previous cur rh col cv kw pv) rh"
  using assms
  by (simp add: calculate_wafer_production_single_row_def found_result_def with_previous_def
        Let_def)

lemma single_row_replacement:
  assumes "find_counter_column (columns cur) (primary_keywords cfg @ fallback_keywords cfg)
             = Some (col, cv, kw)"
    and "col \<in> set (row_index (columns prev))"
    and "row_get (columns prev) col = Some pv"
    and "cv - pv < 0" and "cv - pv < replacement_threshold cfg"
  shows "calculate_wafer_production_single_row cfg cur (Some prev) rh =
           wafers_and_rate
             (clamp_negative
                (try_fallback cfg cur prev kw
                   (add_note (PartReplacement col pv cv)
                      ((with_previous cur rh col cv kw pv)\<lparr>part_replacement_detected := True\<rparr>)))) rh"
  unfolding single_row_with_previous [OF assms(1,2,3)]
  using assms(4,5) by (simp add: negative_change_def detect_part_replacement_def)

lemma single_row_no_replacement:
  assumes "find_counter_column (columns cur) (primary_keywords cfg @ fallback_keywords cfg)
             = Some (col, cv, kw)"
    and "col \<in> set (row_index (columns prev))"
    and "row_get (columns prev) col = Some pv"
    and "\<not> (cv - pv < 0 \<and> cv - pv < replacement_threshold cfg)"
  shows "calculate_wafer_production_single_row cfg cur (Some prev) rh =
           wafers_and_rate (with_previous cur rh col cv kw pv) rh"
  unfolding single_row_with_previous [OF assms(1,2,3)]
  using assms(4) by (simp add: negative_change_def detect_part_replacement_def)

lemma try_fallback_no_recovery:
  "\<not> fallback_recovers cfg cur prev kw \<Longrightarrow> try_fallback cfg cur prev kw res = res"
  by (auto simp: try_fallback_def fallback_recovers_def Let_def split: option.splits prod.splits)

lemma try_fallback_found:
  assumes "kw \<in> set (primary_keywords cfg)"
    and "find_counter_column (columns cur) (fallback_keywords cfg) = Some (fcol, fv, fkw)"
    and "fcol \<in> set (row_index (columns prev))"
    and "row_get (columns prev) fcol = Some fpv"
  shows "try_fallback cfg cur prev kw res =
           (if fv - fpv \<ge> 0
            then add_note (UsedFallback fcol)
                   (res\<lparr>counter_column_used := Some fcol, counter_keyword_used := Some fkw,
                        counter_current_value := Some fv, counter_previous_value := Some fpv,
                        counter_change := Some (fv - fpv)\<rparr>)
            else res)"
  using assms by (simp add: try_fallback_def Let_def)

lemma try_fallback_flag:
  "part_replacement_detected (try_fallback cfg cur prev kw res) = part_replacement_detected res"
  by (simp add: try_fallback_def add_note_def Let_def split: option.splits prod.splits)

lemma try_fallback_change:
  "counter_change res = Some c \<Longrightarrow>
     \<exists>c'. counter_change (try_fallback cfg cur prev kw res) = Some c'"
  by (simp add: try_fallback_def add_note_def Let_def split: option.splits prod.splits)

lemma clamp_negative_flag:
  "part_replacement_detected (clamp_negative res) = part_replacement_detected res"
  by (simp add: clamp_negative_def add_note_def split: option.splits)

lemma clamp_negative_change:
  "counter_change res = Some c \<Longrightarrow>
     counter_change (clamp_negative res) = Some (if c < 0 then 0 else c)"
  by (simp add: clamp_negative_def add_note_def)

lemma wafers_and_rate_nonneg:
  assumes "counter_change x = Some c" and "c \<ge> 0" and "wafers_and_rate x rh = Inr res"
  shows "counter_change res = Some c \<and> wafers_produced res = Some c \<and>
         part_replacement_detected res = part_replacement_detected x"
  using assms unfolding wafers_and_rate_Inr by (auto simp: add_note_def split: if_splits)

lemma wafers_and_rate_flag:
  assumes "wafers_and_rate x rh = Inr res"
  shows "part_replacement_detected res = part_replacement_detected x"
  using assms unfolding wafers_and_rate_Inr
  by (auto simp: add_note_def split: option.splits if_splits)

lemma wafers_and_rate_rate:
  assumes "wafers_and_rate x rh = Inr res" and "wafers_per_hour x = None"
  shows "res_running_hours res = res_running_hours x \<and>
         (case wafers_per_hour res of
            None \<Rightarrow> True
          | Some q \<Rightarrow> rh > 0 \<and> (\<exists>w. wafers_produced res = Some w \<and> q = w / rh))"
  using assms unfolding wafers_and_rate_Inr
  by (auto simp: add_note_def split: option.splits if_splits)

section \<open>Production differencer: the claims\<close>

lemmas example_simps =
  example_config_def example_row_def matching_cols_def name_matches_def row_index_def
  row_get_def sublist_Cons_right suffix_to_prefix

lemmas single_row_eval =
  calculate_wafer_production_single_row_def negative_change_def try_fallback_def
  clamp_negative_def detect_part_replacement_def wafers_and_rate_def py_div_def
  initial_result_def add_note_def Let_def

text \<open>
  Claim C7: on the first observed day of an entity (no previous row) with a counter
  discovered, the result has the current value populated, and both the change and the
  wafers produced are null.
\<close>

theorem C7_first_day_no_change:
  assumes "find_counter_column (columns cur) (primary_keywords cfg @ fallback_keywords cfg)
             = Some (col, cv, kw)"
  shows "\<exists>res. calculate_wafer_production_single_row cfg cur None rh = Inr res \<and>
           counter_current_value res = Some cv \<and> counter_change res = None \<and>
           wafers_produced res = None \<and> calculation_notes res = [FirstDay]"
  unfolding single_row_first_day [OF assms]
  by (simp add: add_note_def found_result_def initial_result_def)

theorem C7_first_day_no_change_witness:
  "find_counter_column (columns (example_row 5 [(''FocusCounter'', Some 100)]))
     (primary_keywords example_config @ fallback_keywords example_config)
     = Some (''FocusCounter'', 100, ''Focus'')
   \<and> (\<exists>res. calculate_wafer_production_single_row example_config
               (example_row 5 [(''FocusCounter'', Some 100)]) None 5 = Inr res \<and>
           counter_current_value res = Some 100 \<and> counter_change res = None \<and>
           wafers_produced res = None \<and> calculation_notes res = [FirstDay])"
proof -
  have f: "find_counter_column (columns (example_row 5 [(''FocusCounter'', Some 100)]))
     (primary_keywords example_config @ fallback_keywords example_config)
     = Some (''FocusCounter'', 100, ''Focus'')"
    by (simp add: example_simps)
  from f C7_first_day_no_change [OF f, of 5] show ?thesis by (rule conjI)
qed

text \<open>
  Claim C4: when the change of the discovered counter is negative but not below the
  threshold, no replacement is flagged and the negative change is kept as it is: no clamp,
  no wafers produced. The comparison is strict, so a change equal to the threshold is not a
  replacement.
\<close>

theorem C4_negative_above_threshold_kept:
  assumes "find_counter_column (columns cur) (primary_keywords cfg @ fallback_keywords cfg)
             = Some (col, cv, kw)"
    and "col \<in> set (row_index (columns prev))"
    and "row_get (columns prev) col = Some pv"
    and "cv - pv < 0"
    and "replacement_threshold cfg \<le> cv - pv"
  shows "\<not> detect_part_replacement cfg (cv - pv) \<and>
         (\<exists>res. calculate_wafer_production_single_row cfg cur (Some prev) rh = Inr res \<and>
            \<not> part_replacement_detected res \<and> counter_change res = Some (cv - pv) \<and>
            wafers_produced res = None \<and> ChangeSetToZero \<notin> set (calculation_notes res))"
proof -
  from assms(5) have n: "\<not> (cv - pv < 0 \<and> cv - pv < replacement_threshold cfg)" by simp
  from assms(5) have "\<not> detect_part_replacement cfg (cv - pv)"
    by (simp add: detect_part_replacement_def)
  moreover have "\<exists>res. calculate_wafer_production_single_row cfg cur (Some prev) rh = Inr res \<and>
            \<not> part_replacement_detected res \<and> counter_change res = Some (cv - pv) \<and>
            wafers_produced res = None \<and> ChangeSetToZero \<notin> set (calculation_notes res)"
    unfolding single_row_no_replacement [OF assms(1,2,3) n] wafers_and_rate_Inr
    using assms(4) by (simp add: with_previous_def found_result_def initial_result_def)
  ultimately show ?thesis by (rule conjI)
qed

theorem C4_negative_above_threshold_kept_witness:
  "find_counter_column (columns (example_row 6 [(''FocusCounter'', Some 5)]))
     (primary_keywords example_config @ fallback_keywords example_config)
     = Some (''FocusCounter'', 5, ''Focus'')
   \<and> ''FocusCounter'' \<in> set (row_index (columns (example_row 5 [(''FocusCounter'', Some 1000)])))
   \<and> row_get (columns (example_row 5 [(''FocusCounter'', Some 1000)])) ''FocusCounter'' = Some 1000
   \<and> (5 :: real) - 1000 < 0
   \<and> replacement_threshold example_config \<le> 5 - 1000
   \<and> \<not> detect_part_replacement example_config (5 - 1000)
   \<and> (\<exists>res. calculate_wafer_production_single_row example_config
               (example_row 6 [(''FocusCounter'', Some 5)])
               (Some (example_row 5 [(''FocusCounter'', Some 1000)])) 4 = Inr res \<and>
            \<not> part_replacement_detected res \<and> counter_change res = Some (- 995) \<and>
            wafers_produced res = None \<and> ChangeSetToZero \<notin> set (calculation_notes res))"
proof -
  have f: "find_counter_column (columns (example_row 6 [(''FocusCounter'', Some 5)]))
     (primary_keywords example_config @ fallback_keywords example_config)
     = Some (''FocusCounter'', 5, ''Focus'')"
    by (simp add: example_simps)
  have i: "''FocusCounter'' \<in> set (row_index (columns (example_row 5 [(''FocusCounter'', Some 1000)])))"
    by (simp add: example_simps)
  have p: "row_get (columns (example_row 5 [(''FocusCounter'', Some 1000)])) ''FocusCounter'' = Some 1000"
    by (simp add: example_simps)
  have n: "(5 :: real) - 1000 < 0" by simp
  have t: "replacement_threshold example_config \<le> 5 - 1000" by (simp add: example_config_def)
  from C4_negative_above_threshold_kept [OF f i p n t, of 4] f i p n t
  show ?thesis by simp
qed

text \<open>
  Claim C3: when the change of the discovered counter is strictly below the configured
  negative threshold and no fallback counter gives a non-negative recomputed change, the
  result has the replacement flag set, the change clamped to 0 and 0 wafers produced.
\<close>

theorem C3_replacement_clamped_to_zero:
  assumes "find_counter_column (columns cur) (primary_keywords cfg @ fallback_keywords cfg)
             = Some (col, cv, kw)"
    and "col \<in> set (row_index (columns prev))"
    and "row_get (columns prev) col = Some pv"
    and "replacement_threshold cfg \<le> 0"
    and "cv - pv < replacement_threshold cfg"
    and "\<not> fallback_recovers cfg cur prev kw"
  shows "\<exists>res. calculate_wafer_production_single_row cfg cur (Some prev) rh = Inr res \<and>
           part_replacement_detected res \<and> counter_change res = Some 0 \<and>
           wafers_produced res = Some 0 \<and> ChangeSetToZero \<in> set (calculation_notes res)"
proof -
  from assms(4,5) have neg: "cv - pv < 0" by simp
  show ?thesis
    unfolding single_row_replacement [OF assms(1,2,3) neg assms(5)]
      try_fallback_no_recovery [OF assms(6)] wafers_and_rate_Inr
    using neg
    by (simp add: clamp_negative_def add_note_def with_previous_def found_result_def
          initial_result_def)
qed

theorem C3_replacement_clamped_to_zero_witness:
  "find_counter_column (columns (example_row 6 [(''FocusCounter'', Some 5)]))
     (primary_keywords example_config @ fallback_keywords example_config)
     = Some (''FocusCounter'', 5, ''Focus'')
   \<and> ''FocusCounter'' \<in> set (row_index (columns (example_row 5 [(''FocusCounter'', Some 2000)])))
   \<and> row_get (columns (example_row 5 [(''FocusCounter'', Some 2000)])) ''FocusCounter'' = Some 2000
   \<and> replacement_threshold example_config \<le> 0
   \<and> 5 - 2000 < replacement_threshold example_config
   \<and> \<not> fallback_recovers example_config (example_row 6 [(''FocusCounter'', Some 5)])
         (example_row 5 [(''FocusCounter'', Some 2000)]) ''Focus''
   \<and> (\<exists>res. calculate_wafer_production_single_row example_config
               (example_row 6 [(''FocusCounter'', Some 5)])
               (Some (example_row 5 [(''FocusCounter'', Some 2000)])) 4 = Inr res \<and>
           part_replacement_detected res \<and> counter_change res = Some 0 \<and>
           wafers_produced res = Some 0 \<and> ChangeSetToZero \<in> set (calculation_notes res))"
proof -
  have f: "find_counter_column (columns (example_row 6 [(''FocusCounter'', Some 5)]))
     (primary_keywords example_config @ fallback_keywords example_config)
     = Some (''FocusCounter'', 5, ''Focus'')"
    by (simp add: example_simps)
  have i: "''FocusCounter'' \<in> set (row_index (columns (example_row 5 [(''FocusCounter'', Some 2000)])))"
    by (simp add: example_simps)
  have p: "row_get (columns (example_row 5 [(''FocusCounter'', Some 2000)])) ''FocusCounter'' = Some 2000"
    by (simp add: example_simps)
  have t0: "replacement_threshold example_config \<le> 0" by (simp add: example_config_def)
  have t: "5 - 2000 < replacement_threshold example_config" by (simp add: example_config_def)
  have n: "\<not> fallback_recovers example_config (example_row 6 [(''FocusCounter'', Some 5)])
         (example_row 5 [(''FocusCounter'', Some 2000)]) ''Focus''"
    by (simp add: fallback_recovers_def example_simps)
  from C3_replacement_clamped_to_zero [OF f i p t0 t n, of 4] f i p t0 t n
  show ?thesis by blast
qed

text \<open>
  Claim C2, as stated, fails when the fallback counter itself went down. Primary counter
  2000 -> 5, fallback counter 500 -> 400, both present in both rows: the result keeps the
  primary column, keyword and values, and the change is clamped to 0.
\<close>

theorem C2_negative_fallback_not_switched:
  "calculate_wafer_production_single_row example_config
     (example_row 6 [(''FocusCounter'', Some 5), (''APCCounter'', Some 400)])
     (Some (example_row 5 [(''FocusCounter'', Some 2000), (''APCCounter'', Some 500)])) 4
   = Inr \<lparr>res_ENTITY = ''E1'', res_counter_date = (2024, 1, 6),
          counter_column_used = Some ''FocusCounter'', counter_keyword_used = Some ''Focus'',
          counter_current_value = Some 5, counter_previous_value = Some 2000,
          counter_change = Some 0, part_replacement_detected = True,
          wafers_produced = Some 0, res_running_hours = 4, wafers_per_hour = Some 0,
          calculation_notes = [PartReplacement ''FocusCounter'' 2000 5, ChangeSetToZero]\<rparr>
   \<and> find_counter_column
         (columns (example_row 6 [(''FocusCounter'', Some 5), (''APCCounter'', Some 400)]))
         (fallback_keywords example_config) = Some (''APCCounter'', 400, ''APC'')
   \<and> row_get (columns (example_row 5 [(''FocusCounter'', Some 2000), (''APCCounter'', Some 500)]))
         ''APCCounter'' = Some 500"
  by (simp add: single_row_eval example_simps)


text \<open>
  Claim C2, amended: when a replacement is detected, the keyword first selected is a primary
  one and the fallback search finds a column that is in the previous row with a value, the
  result is switched to the fallback (column, keyword, current and previous value, change,
  wafers produced) exactly when the fallback's own difference is not negative; when it is
  negative the result keeps the primary column, keyword and values, and the change is
  clamped to 0. The replacement flag is set in both cases.
\<close>

theorem C2_fallback_switch_only_when_nonnegative:
  assumes "find_counter_column (columns cur) (primary_keywords cfg @ fallback_keywords cfg)
             = Some (col, cv, kw)"
    and "col \<in> set (row_index (columns prev))"
    and "row_get (columns prev) col = Some pv"
    and "cv - pv < 0"
    and "cv - pv < replacement_threshold cfg"
    and "kw \<in> set (primary_keywords cfg)"
    and "find_counter_column (columns cur) (fallback_keywords cfg) = Some (fcol, fv, fkw)"
    and "fcol \<in> set (row_index (columns prev))"
    and "row_get (columns prev) fcol = Some fpv"
  shows "\<exists>res. calculate_wafer_production_single_row cfg cur (Some prev) rh = Inr res \<and>
           part_replacement_detected res \<and>
           (if fv - fpv \<ge> 0
            then counter_column_used res = Some fcol \<and> counter_keyword_used res = Some fkw \<and>
                 counter_current_value res = Some fv \<and> counter_previous_value res = Some fpv \<and>
                 counter_change res = Some (fv - fpv) \<and> wafers_produced res = Some (fv - fpv)
            else counter_column_used res = Some col \<and> counter_keyword_used res = Some kw \<and>
                 counter_current_value res = Some cv \<and> counter_previous_value res = Some pv \<and>
                 counter_change res = Some 0 \<and> wafers_produced res = Some 0)"
  unfolding single_row_replacement [OF assms(1,2,3,4,5)]
    try_fallback_found [OF assms(6,7,8,9)] wafers_and_rate_Inr
  using assms(4)
  by (simp add: clamp_negative_def add_note_def with_previous_def found_result_def
        initial_result_def)

theorem C2_fallback_switch_only_when_nonnegative_witness:
  "find_counter_column
     (columns (example_row 6 [(''FocusCounter'', Some 5), (''APCCounter'', Some 530)]))
     (primary_keywords example_config @ fallback_keywords example_config)
     = Some (''FocusCounter'', 5, ''Focus'')
   \<and> ''FocusCounter'' \<in> set (row_index (columns
         (example_row 5 [(''FocusCounter'', Some 2000), (''APCCounter'', Some 500)])))
   \<and> row_get (columns (example_row 5 [(''FocusCounter'', Some 2000), (''APCCounter'', Some 500)]))
         ''FocusCounter'' = Some 2000
   \<and> (5 :: real) - 2000 < 0
   \<and> 5 - 2000 < replacement_threshold example_config
   \<and> ''Focus'' \<in> set (primary_keywords example_config)
   \<and> find_counter_column
         (columns (example_row 6 [(''FocusCounter'', Some 5), (''APCCounter'', Some 530)]))
         (fallback_keywords example_config) = Some (''APCCounter'', 530, ''APC'')
   \<and> ''APCCounter'' \<in> set (row_index (columns
         (example_row 5 [(''FocusCounter'', Some 2000), (''APCCounter'', Some 500)])))
   \<and> row_get (columns (example_row 5 [(''FocusCounter'', Some 2000), (''APCCounter'', Some 500)]))
         ''APCCounter'' = Some 500
   \<and> (\<exists>res. calculate_wafer_production_single_row example_config
               (example_row 6 [(''FocusCounter'', Some 5), (''APCCounter'', Some 530)])
               (Some (example_row 5 [(''FocusCounter'', Some 2000), (''APCCounter'', Some 500)]))
               4 = Inr res \<and>
           part_replacement_detected res \<and>
           counter_column_used res = Some ''APCCounter'' \<and>
           counter_keyword_used res = Some ''APC'' \<and>
           counter_current_value res = Some 530 \<and> counter_previous_value res = Some 500 \<and>
           counter_change res = Some 30 \<and> wafers_produced res = Some 30)"
proof -
  let ?cur = "example_row 6 [(''FocusCounter'', Some 5), (''APCCounter'', Some 530)]"
  let ?prev = "example_row 5 [(''FocusCounter'', Some 2000), (''APCCounter'', Some 500)]"
  have f: "find_counter_column (columns ?cur)
     (primary_keywords example_config @ fallback_keywords example_config)
     = Some (''FocusCounter'', 5, ''Focus'')"
    by (simp add: example_simps)
  have i: "''FocusCounter'' \<in> set (row_index (columns ?prev))" by (simp add: example_simps)
  have p: "row_get (columns ?prev) ''FocusCounter'' = Some 2000" by (simp add: example_simps)
  have n: "(5 :: real) - 2000 < 0" by simp
  have t: "5 - 2000 < replacement_threshold example_config" by (simp add: example_config_def)
  have k: "''Focus'' \<in> set (primary_keywords example_config)" by (simp add: example_config_def)
  have ff: "find_counter_column (columns ?cur) (fallback_keywords example_config)
     = Some (''APCCounter'', 530, ''APC'')"
    by (simp add: example_simps)
  have fi: "''APCCounter'' \<in> set (row_index (columns ?prev))" by (simp add: example_simps)
  have fp: "row_get (columns ?prev) ''APCCounter'' = Some 500" by (simp add: example_simps)
  from C2_fallback_switch_only_when_nonnegative [OF f i p n t k ff fi fp, of 4]
  have "\<exists>res. calculate_wafer_production_single_row example_config ?cur (Some ?prev) 4 = Inr res \<and>
           part_replacement_detected res \<and>
           counter_column_used res = Some ''APCCounter'' \<and>
           counter_keyword_used res = Some ''APC'' \<and>
           counter_current_value res = Some 530 \<and> counter_previous_value res = Some 500 \<and>
           counter_change res = Some 30 \<and> wafers_produced res = Some 30"
    by simp
  with f i p n t k ff fi fp show ?thesis by blast
qed

text \<open>
  Claim C10: a result with the replacement flag set carries a change that is present and not
  negative, and its wafers produced equal that change.
\<close>

theorem C10_replacement_flag_implies_nonnegative_change:
  assumes "calculate_wafer_production_single_row cfg cur prev rh = Inr res"
    and "part_replacement_detected res"
  shows "\<exists>c. counter_change res = Some c \<and> 0 \<le> c \<and> wafers_produced res = Some c"
proof (cases "find_counter_column (columns cur) (primary_keywords cfg @ fallback_keywords cfg)")
  case None
  from assms(1) have "res = add_note NoCounterFound (initial_result cur rh)"
    unfolding single_row_not_found [OF None] by simp
  with assms(2) show ?thesis by (simp add: add_note_def initial_result_def)
next
  case (Some t)
  obtain col cv kw where t: "t = (col, cv, kw)" by (cases t)
  note f = Some [unfolded t]
  show ?thesis
  proof (cases prev)
    case None
    from assms(1) have "res = add_note FirstDay (found_result cur rh col cv kw)"
      unfolding None single_row_first_day [OF f] by simp
    with assms(2) show ?thesis by (simp add: add_note_def found_result_def initial_result_def)
  next
    case (Some p)
    show ?thesis
    proof (cases "col \<in> set (row_index (columns p))")
      case False
      from assms(1) have "res = add_note (NotInPreviousRow col) (found_result cur rh col cv kw)"
        unfolding Some single_row_not_in_previous [OF f False] by simp
      with assms(2) show ?thesis by (simp add: add_note_def found_result_def initial_result_def)
    next
      case True
      show ?thesis
      proof (cases "row_get (columns p) col")
        case None
        from assms(1) have "res = add_note PreviousValueNull (found_result cur rh col cv kw)"
          unfolding Some single_row_previous_null [OF f True None] by simp
        with assms(2) show ?thesis
          by (simp add: add_note_def found_result_def initial_result_def)
      next
        case (Some pv)
        show ?thesis
        proof (cases "cv - pv < 0 \<and> cv - pv < replacement_threshold cfg")
          case False
          from assms(1) have w: "wafers_and_rate (with_previous cur rh col cv kw pv) rh = Inr res"
            unfolding \<open>prev = Some p\<close> single_row_no_replacement [OF f True Some False] .
          from wafers_and_rate_flag [OF w] assms(2)
          have "part_replacement_detected (with_previous cur rh col cv kw pv)" by simp
          then show ?thesis
            by (simp add: with_previous_def found_result_def initial_result_def)
        next
          case rep: True
          let ?b = "add_note (PartReplacement col pv cv)
                      ((with_previous cur rh col cv kw pv)\<lparr>part_replacement_detected := True\<rparr>)"
          from rep have r1: "cv - pv < 0" and r2: "cv - pv < replacement_threshold cfg"
            by simp_all
          from assms(1) have w:
            "wafers_and_rate (clamp_negative (try_fallback cfg cur p kw ?b)) rh = Inr res"
            unfolding \<open>prev = Some p\<close> single_row_replacement [OF f True Some r1 r2] .
          have "counter_change ?b = Some (cv - pv)"
            by (simp add: add_note_def with_previous_def)
          from try_fallback_change [OF this] obtain c' where
            c': "counter_change (try_fallback cfg cur p kw ?b) = Some c'" by blast
          from clamp_negative_change [OF c']
          have cc: "counter_change (clamp_negative (try_fallback cfg cur p kw ?b))
                      = Some (if c' < 0 then 0 else c')" .
          have nn: "0 \<le> (if c' < 0 then 0 else c')" by simp
          from wafers_and_rate_nonneg [OF cc nn w] nn show ?thesis by blast
        qed
      qed
    qed
  qed
qed

theorem C10_replacement_flag_implies_nonnegative_change_witness:
  "calculate_wafer_production_single_row example_config
     (example_row 6 [(''FocusCounter'', Some 5)])
     (Some (example_row 5 [(''FocusCounter'', Some 2000)])) 4
   = Inr \<lparr>res_ENTITY = ''E1'', res_counter_date = (2024, 1, 6),
          counter_column_used = Some ''FocusCounter'', counter_keyword_used = Some ''Focus'',
          counter_current_value = Some 5, counter_previous_value = Some 2000,
          counter_change = Some 0, part_replacement_detected = True,
          wafers_produced = Some 0, res_running_hours = 4, wafers_per_hour = Some 0,
          calculation_notes = [PartReplacement ''FocusCounter'' 2000 5, ChangeSetToZero]\<rparr>
   \<and> (\<exists>c. counter_change \<lparr>res_ENTITY = ''E1'', res_counter_date = (2024, 1, 6),
          counter_column_used = Some ''FocusCounter'', counter_keyword_used = Some ''Focus'',
          counter_current_value = Some 5, counter_previous_value = Some 2000,
          counter_change = Some 0, part_replacement_detected = True,
          wafers_produced = Some 0, res_running_hours = 4, wafers_per_hour = Some 0,
          calculation_notes = [PartReplacement ''FocusCounter'' 2000 5, ChangeSetToZero]\<rparr> = Some c
        \<and> (0 :: real) \<le> c)"
proof -
  let ?res = "\<lparr>res_ENTITY = ''E1'', res_counter_date = (2024, 1, 6) :: date,
          counter_column_used = Some ''FocusCounter'', counter_keyword_used = Some ''Focus'',
          counter_current_value = Some (5 :: real), counter_previous_value = Some (2000 :: real),
          counter_change = Some (0 :: real), part_replacement_detected = True,
          wafers_produced = Some (0 :: real), res_running_hours = 4 :: real,
          wafers_per_hour = Some (0 :: real),
          calculation_notes = [PartReplacement ''FocusCounter'' 2000 5, ChangeSetToZero]\<rparr>"
  have e: "calculate_wafer_production_single_row example_config
     (example_row 6 [(''FocusCounter'', Some 5)])
     (Some (example_row 5 [(''FocusCounter'', Some 2000)])) 4 = Inr ?res"
    by (simp add: single_row_eval example_simps)
  have fl: "part_replacement_detected ?res" by simp
  from C10_replacement_flag_implies_nonnegative_change [OF e fl]
  have "\<exists>c. counter_change ?res = Some c \<and> 0 \<le> c" by blast
  with e show ?thesis by (rule conjI)
qed

lemma try_fallback_rate:
  "wafers_per_hour (try_fallback cfg cur prev kw res) = wafers_per_hour res"
  "res_running_hours (try_fallback cfg cur prev kw res) = res_running_hours res"
  by (simp_all add: try_fallback_def add_note_def Let_def split: option.splits prod.splits)

lemma clamp_negative_rate:
  "wafers_per_hour (clamp_negative res) = wafers_per_hour res"
  "res_running_hours (clamp_negative res) = res_running_hours res"
  by (simp_all add: clamp_negative_def add_note_def split: option.splits)

lemma wafers_and_rate_total:
  assumes "wafers_per_hour x = None" and "res_running_hours x = rh"
  shows "\<exists>res. wafers_and_rate x rh = Inr res \<and> res_running_hours res = rh \<and>
           (case wafers_per_hour res of
              None \<Rightarrow> True
            | Some q \<Rightarrow> 0 < rh \<and> (\<exists>w. wafers_produced res = Some w \<and> q = w / rh))"
proof -
  obtain res where r: "wafers_and_rate x rh = Inr res" unfolding wafers_and_rate_Inr by blast
  from wafers_and_rate_rate [OF r assms(1)] assms(2) r show ?thesis by simp
qed

lemma early_result_total:
  assumes "y = add_note n (found_result cur rh col cv kw) \<or> y = add_note n (initial_result cur rh)"
  shows "res_running_hours y = rh \<and> wafers_per_hour y = None"
  using assms by (auto simp: add_note_def found_result_def initial_result_def)

lemma single_row_total:
  "\<exists>res. calculate_wafer_production_single_row cfg cur prev rh = Inr res \<and>
         res_running_hours res = rh \<and>
         (case wafers_per_hour res of
            None \<Rightarrow> True
          | Some q \<Rightarrow> 0 < rh \<and> (\<exists>w. wafers_produced res = Some w \<and> q = w / rh))"
proof (cases "find_counter_column (columns cur) (primary_keywords cfg @ fallback_keywords cfg)")
  case None
  show ?thesis unfolding single_row_not_found [OF None]
    by (simp add: add_note_def initial_result_def)
next
  case (Some t)
  obtain col cv kw where t: "t = (col, cv, kw)" by (cases t)
  note f = Some [unfolded t]
  show ?thesis
  proof (cases prev)
    case None
    show ?thesis unfolding None single_row_first_day [OF f]
      by (simp add: add_note_def found_result_def initial_result_def)
  next
    case (Some p)
    show ?thesis
    proof (cases "col \<in> set (row_index (columns p))")
      case False
      show ?thesis unfolding Some single_row_not_in_previous [OF f False]
        by (simp add: add_note_def found_result_def initial_result_def)
    next
      case True
      show ?thesis
      proof (cases "row_get (columns p) col")
        case None
        show ?thesis unfolding Some single_row_previous_null [OF f True None]
          by (simp add: add_note_def found_result_def initial_result_def)
      next
        case (Some pv)
        have b: "wafers_per_hour (with_previous cur rh col cv kw pv) = None"
                "res_running_hours (with_previous cur rh col cv kw pv) = rh"
          by (simp_all add: with_previous_def found_result_def initial_result_def)
        show ?thesis
        proof (cases "cv - pv < 0 \<and> cv - pv < replacement_threshold cfg")
          case False
          show ?thesis
            unfolding \<open>prev = Some p\<close> single_row_no_replacement [OF f True Some False]
            by (rule wafers_and_rate_total [OF b])
        next
          case rep: True
          from rep have r1: "cv - pv < 0" and r2: "cv - pv < replacement_threshold cfg"
            by simp_all
          show ?thesis
            unfolding \<open>prev = Some p\<close> single_row_replacement [OF f True Some r1 r2]
            by (rule wafers_and_rate_total)
               (simp_all add: clamp_negative_rate try_fallback_rate add_note_def b)
        qed
      qed
    qed
  qed
qed

lemma lookup_running_hours_absent:
  assumes "\<forall>s\<in>set sh. \<not> (sh_ENTITY s = e \<and> state_date s = d)"
  shows "lookup_running_hours sh e d = 0"
proof -
  from assms have "filter (\<lambda>s. sh_ENTITY s = e \<and> state_date s = d) sh = []"
    by (simp add: filter_empty_conv)
  then show ?thesis by (simp add: lookup_running_hours_def)
qed

text \<open>
  Claim C8: an entity and date with no row in the state-hours table get running hours 0 and
  a null rate; the rate is the quotient of wafers produced by running hours only when the
  running hours are above 0, and the calculation of a row never ends in an error, a
  division by zero included.
\<close>

theorem C8_no_state_row_no_rate_no_error:
  "(\<exists>res. calculate_wafer_production_single_row cfg cur prev rh = Inr res \<and>
      res_running_hours res = rh \<and>
      (case wafers_per_hour res of
         None \<Rightarrow> True
       | Some q \<Rightarrow> 0 < rh \<and> (\<exists>w. wafers_produced res = Some w \<and> q = w / rh))) \<and>
   ((\<forall>s\<in>set sh. \<not> (sh_ENTITY s = ENTITY cur \<and> state_date s = counter_date cur)) \<longrightarrow>
      lookup_running_hours sh (ENTITY cur) (counter_date cur) = 0 \<and>
      (\<exists>res. calculate_wafer_production_single_row cfg cur prev
               (lookup_running_hours sh (ENTITY cur) (counter_date cur)) = Inr res \<and>
         res_running_hours res = 0 \<and> wafers_per_hour res = None))"
proof (intro conjI impI)
  show "\<exists>res. calculate_wafer_production_single_row cfg cur prev rh = Inr res \<and>
      res_running_hours res = rh \<and>
      (case wafers_per_hour res of
         None \<Rightarrow> True
       | Some q \<Rightarrow> 0 < rh \<and> (\<exists>w. wafers_produced res = Some w \<and> q = w / rh))"
    by (rule single_row_total)
next
  assume a: "\<forall>s\<in>set sh. \<not> (sh_ENTITY s = ENTITY cur \<and> state_date s = counter_date cur)"
  show "lookup_running_hours sh (ENTITY cur) (counter_date cur) = 0"
    by (rule lookup_running_hours_absent [OF a])
next
  assume a: "\<forall>s\<in>set sh. \<not> (sh_ENTITY s = ENTITY cur \<and> state_date s = counter_date cur)"
  have z: "lookup_running_hours sh (ENTITY cur) (counter_date cur) = 0"
    by (rule lookup_running_hours_absent [OF a])
  from single_row_total [of cfg cur prev 0] obtain res where
    r: "calculate_wafer_production_single_row cfg cur prev 0 = Inr res"
       "res_running_hours res = 0"
       "case wafers_per_hour res of None \<Rightarrow> True
        | Some q \<Rightarrow> (0 :: real) < 0 \<and> (\<exists>w. wafers_produced res = Some w \<and> q = w / 0)"
    by blast
  from r(3) have "wafers_per_hour res = None" by (cases "wafers_per_hour res") simp_all
  with r(1,2) show "\<exists>res. calculate_wafer_production_single_row cfg cur prev
               (lookup_running_hours sh (ENTITY cur) (counter_date cur)) = Inr res \<and>
         res_running_hours res = 0 \<and> wafers_per_hour res = None"
    unfolding z by blast
qed

theorem C8_no_state_row_no_rate_no_error_witness:
  "filter (\<lambda>s. sh_ENTITY s = ''E1'' \<and> state_date s = (2024, 1, 6)) example_state_hours = []
   \<and> lookup_running_hours example_state_hours ''E1'' (2024, 1, 6) = 0
   \<and> (\<exists>res. calculate_wafer_production_single_row example_config
               (example_row 6 [(''FocusCounter'', Some 180)])
               (Some (example_row 5 [(''FocusCounter'', Some 100)]))
               (lookup_running_hours example_state_hours ''E1'' (2024, 1, 6)) = Inr res \<and>
           res_running_hours res = 0 \<and> wafers_per_hour res = None)"
proof -
  let ?cur = "example_row 6 [(''FocusCounter'', Some 180)]"
  have a: "\<forall>s\<in>set example_state_hours.
      \<not> (sh_ENTITY s = ENTITY ?cur \<and> state_date s = counter_date ?cur)"
    by (simp add: example_state_hours_def example_row_def)
  have e: "ENTITY ?cur = ''E1''" "counter_date ?cur = (2024, 1, 6)"
    by (simp_all add: example_row_def)
  from C8_no_state_row_no_rate_no_error
         [of example_config ?cur "Some (example_row 5 [(''FocusCounter'', Some 100)])" 0
             example_state_hours]
       a
  have c: "(\<exists>res. calculate_wafer_production_single_row example_config ?cur
               (Some (example_row 5 [(''FocusCounter'', Some 100)]))
               (lookup_running_hours example_state_hours ''E1'' (2024, 1, 6)) = Inr res \<and>
           res_running_hours res = 0 \<and> wafers_per_hour res = None)
     \<and> lookup_running_hours example_state_hours ''E1'' (2024, 1, 6) = 0"
    unfolding e by blast
  have f: "filter (\<lambda>s. sh_ENTITY s = ''E1'' \<and> state_date s = (2024, 1, 6))
             example_state_hours = []"
    by (simp add: example_state_hours_def)
  from c f show ?thesis by blast
qed


section \<open>Lemmas on the state hours\<close>

lemmas classify_eval = classify_state_def classify_spec_def example_state_config_def
  py_strip_def py_isspace_def

lemmas parse_eval = parse_day_shift_to_date_def date_formats_def strptime_def directive_def
  is_digit_def digit_val_def valid_date_def days_in_month_def is_leap_def replace_year_def

lemmas strptime_eval = strptime_def directive_def is_digit_def digit_val_def valid_date_def
  days_in_month_def is_leap_def

subsection \<open>Duplicate removal and the pivot rows\<close>

lemma drop_duplicates_last_subset: "set (drop_duplicates_last xs) \<subseteq> set xs"
  by (induction xs) auto

lemma drop_duplicates_last_keys:
  "dedup_key ` set (drop_duplicates_last xs) = dedup_key ` set xs"
  by (induction xs) auto

lemma drop_duplicates_last_distinct: "distinct (map dedup_key (drop_duplicates_last xs))"
proof (induction xs)
  case Nil
  show ?case by simp
next
  case (Cons x xs)
  have "dedup_key x \<notin> dedup_key ` set xs \<Longrightarrow>
        dedup_key x \<notin> dedup_key ` set (drop_duplicates_last xs)"
    by (simp add: drop_duplicates_last_keys)
  with Cons show ?case by simp
qed

lemma drop_duplicates_last_kept:
  "x \<in> set (drop_duplicates_last xs) \<Longrightarrow>
   \<exists>ys zs. xs = ys @ x # zs \<and> dedup_key x \<notin> dedup_key ` set zs"
proof (induction xs)
  case Nil
  then show ?case by simp
next
  case (Cons a xs)
  show ?case
  proof (cases "x \<in> set (drop_duplicates_last xs)")
    case True
    from Cons.IH [OF True] obtain ys zs
      where "xs = ys @ x # zs" "dedup_key x \<notin> dedup_key ` set zs" by blast
    then have "a # xs = (a # ys) @ x # zs \<and> dedup_key x \<notin> dedup_key ` set zs" by simp
    then show ?thesis by blast
  next
    case False
    with Cons.prems have k: "dedup_key a \<notin> set (map dedup_key xs)" and e: "x = a"
      by (auto split: if_splits)
    from k e have "a # xs = [] @ x # xs \<and> dedup_key x \<notin> dedup_key ` set xs" by simp
    then show ?thesis by blast
  qed
qed

lemma drop_duplicates_last_subseq: "subseq (drop_duplicates_last xs) xs"
  by (induction xs) auto

lemma pivot_row_invariant:
  "total_hours (pivot_row cfg dated k) =
     running_hours (pivot_row cfg dated k) + idle_hours (pivot_row cfg dated k) +
     down_hours (pivot_row cfg dated k) + bagged_hours (pivot_row cfg dated k) \<and>
   is_bagged (pivot_row cfg dated k) = (bagged_hours (pivot_row cfg dated k) > 0)"
  by (cases k) (simp add: pivot_row_def Let_def)

lemma state_hours_pivot_invariant:
  "x \<in> set (state_hours_pivot cfg dated) \<Longrightarrow>
   total_hours x = running_hours x + idle_hours x + down_hours x + bagged_hours x \<and>
   is_bagged x = (bagged_hours x > 0)"
proof -
  assume "x \<in> set (state_hours_pivot cfg dated)"
  then have "x \<in> pivot_row cfg dated ` set (sort (remdups (map group_key_of dated)))"
    unfolding state_hours_pivot_def by (simp only: set_map)
  then obtain k where "x = pivot_row cfg dated k" by (rule imageE)
  then show ?thesis using pivot_row_invariant [of cfg dated k] by simp
qed

lemma example_with_state_date: "with_state_date 2026 example_states =
  [(example_states ! 0, (2024, 1, 5)), (example_states ! 1, (2024, 1, 5)),
   (example_states ! 2, (2024, 1, 5)), (example_states ! 4, (2024, 1, 5))]"
  by (simp add: with_state_date_def example_states_def example_state_record_def parse_eval)

lemmas pivot_eval = state_hours_pivot_def example_states_def example_state_record_def
  group_key_of_def pivot_row_def hours_in_def classify_eval dedup_key_def

subsection \<open>Date parsing\<close>

lemma match_format_no_year:
  "(fs, r) \<in> set (match_format ''%m/%d'' s) \<Longrightarrow>
   map_of fs (CHR ''Y'') = None \<and> map_of fs (CHR ''y'') = None"
  by (auto split: list.splits if_splits)

lemma strptime_no_year:
  assumes "strptime dp ''%m/%d'' = Some (y, m, d)"
  shows "y = 1900 \<and> valid_date (1900, m, d)"
proof -
  from assms obtain fs rest ms where ms: "match_format ''%m/%d'' dp = (fs, rest) # ms"
    unfolding strptime_def by (auto split: list.splits)
  then have "(fs, rest) \<in> set (match_format ''%m/%d'' dp)" by simp
  from match_format_no_year [OF this]
  have ny: "map_of fs (CHR ''Y'') = None" "map_of fs (CHR ''y'') = None" by simp_all
  from assms ms ny show ?thesis
    unfolding strptime_def by (auto simp: Let_def split: if_splits)
qed

lemma days_in_month_1900: "days_in_month 1900 m \<le> days_in_month y m"
  by (simp add: days_in_month_def is_leap_def)

lemma valid_date_any_year:
  "valid_date (1900, m, d) \<Longrightarrow> 1 \<le> y \<Longrightarrow> y \<le> 9999 \<Longrightarrow> valid_date (y, m, d)"
  using days_in_month_1900 [of m y] by (simp add: valid_date_def)

lemma replace_year_no_year:
  assumes "strptime dp ''%m/%d'' = Some p" "1 \<le> cy" "cy \<le> 9999"
  shows "replace_year p cy = Some (case p of (y, m, d) \<Rightarrow> (cy, m, d))"
proof -
  obtain y m d where p: "p = (y, m, d)" by (cases p) auto
  from strptime_no_year [of dp y m d] assms(1) p have "valid_date (1900, m, d)" by simp
  from valid_date_any_year [OF this assms(2,3)] p show ?thesis
    by (simp add: replace_year_def)
qed

lemma try_formats_date_formats:
  assumes "1 \<le> cy" "cy \<le> 9999"
  shows "try_formats cy dp date_formats =
     first_parsed [strptime dp ''%m/%d/%Y'', strptime dp ''%m/%d/%y'',
                   map_option (\<lambda>(y, m, d). (cy, m, d)) (strptime dp ''%m/%d'')]"
proof (cases "strptime dp ''%m/%d/%Y''")
  case (Some a)
  then show ?thesis by (simp add: date_formats_def)
next
  case n1: None
  show ?thesis
  proof (cases "strptime dp ''%m/%d/%y''")
    case (Some a)
    with n1 show ?thesis by (simp add: date_formats_def)
  next
    case n2: None
    show ?thesis
    proof (cases "strptime dp ''%m/%d''")
      case None
      with n1 n2 show ?thesis by (simp add: date_formats_def)
    next
      case (Some p)
      from replace_year_no_year [OF Some assms] n1 n2 Some show ?thesis
        by (simp add: date_formats_def)
    qed
  qed
qed

lemma with_state_date_fst:
  "map fst (with_state_date cy df) =
     filter (\<lambda>r. parse_day_shift_to_date cy (DAY_SHIFT r) \<noteq> None) df"
  unfolding with_state_date_def by (induction df) (auto split: option.splits)

lemma with_state_date_snd:
  "rd \<in> set (with_state_date cy df) \<Longrightarrow>
   parse_day_shift_to_date cy (DAY_SHIFT (fst rd)) = Some (snd rd)"
  unfolding with_state_date_def by (auto split: option.splits)

lemma with_state_date_filter:
  "with_state_date cy (filter (\<lambda>r. parse_day_shift_to_date cy (DAY_SHIFT r) \<noteq> None) df) =
   with_state_date cy df"
  unfolding with_state_date_def by (induction df) (auto split: option.splits)

text \<open>
  With the current year a year of the calendar, the date of a day shift is the first result
  among the formats \<^verbatim>\<open>%m/%d/%Y\<close>, \<^verbatim>\<open>%m/%d/%y\<close> and \<^verbatim>\<open>%m/%d\<close> applied to the text before the
  dash, the last with the year that \<^verbatim>\<open>strptime\<close> gives replaced by the current year. The records
  that go on to the aggregation are exactly those with a date, in their order and each with
  its date, and the result is the result on the batch without the other records.
\<close>

lemma day_shift_dates_in_format_order:
  "1 \<le> cy \<Longrightarrow> cy \<le> 9999 \<Longrightarrow>
   parse_day_shift_to_date cy None = None \<and>
   parse_day_shift_to_date cy (Some s) =
     first_parsed
       [strptime (takeWhile (\<lambda>c. c \<noteq> CHR ''-'') s) ''%m/%d/%Y'',
        strptime (takeWhile (\<lambda>c. c \<noteq> CHR ''-'') s) ''%m/%d/%y'',
        map_option (\<lambda>(y, m, d). (cy, m, d))
          (strptime (takeWhile (\<lambda>c. c \<noteq> CHR ''-'') s) ''%m/%d'')] \<and>
   map fst (with_state_date cy df) =
     filter (\<lambda>r. parse_day_shift_to_date cy (DAY_SHIFT r) \<noteq> None) df \<and>
   (\<forall>rd\<in>set (with_state_date cy df).
      parse_day_shift_to_date cy (DAY_SHIFT (fst rd)) = Some (snd rd)) \<and>
   calculate_daily_state_hours cfg cy df =
     calculate_daily_state_hours cfg cy
       (filter (\<lambda>r. parse_day_shift_to_date cy (DAY_SHIFT r) \<noteq> None) df)"
proof -
  assume cy: "1 \<le> cy" "cy \<le> 9999"
  have a: "parse_day_shift_to_date cy None = None"
    by (simp add: parse_day_shift_to_date_def)
  have b: "parse_day_shift_to_date cy (Some s) =
     first_parsed
       [strptime (takeWhile (\<lambda>c. c \<noteq> CHR ''-'') s) ''%m/%d/%Y'',
        strptime (takeWhile (\<lambda>c. c \<noteq> CHR ''-'') s) ''%m/%d/%y'',
        map_option (\<lambda>(y, m, d). (cy, m, d))
          (strptime (takeWhile (\<lambda>c. c \<noteq> CHR ''-'') s) ''%m/%d'')]"
    using try_formats_date_formats [OF cy] by (simp add: parse_day_shift_to_date_def)
  have c: "\<forall>rd\<in>set (with_state_date cy df).
      parse_day_shift_to_date cy (DAY_SHIFT (fst rd)) = Some (snd rd)"
    using with_state_date_snd by blast
  have d: "calculate_daily_state_hours cfg cy df =
     calculate_daily_state_hours cfg cy
       (filter (\<lambda>r. parse_day_shift_to_date cy (DAY_SHIFT r) \<noteq> None) df)"
    by (simp only: calculate_daily_state_hours_def with_state_date_filter)
  from a b c d with_state_date_fst [of cy df] show ?thesis by blast
qed

lemma day_shift_dates_examples:
  "strptime ''1/5/24'' ''%m/%d/%Y'' = None \<and>
   parse_day_shift_to_date 2026 (Some ''1/5/24-N'') = Some (2024, 1, 5) \<and>
   parse_day_shift_to_date 2026 (Some ''1/5/2024-D'') = Some (2024, 1, 5) \<and>
   parse_day_shift_to_date 2026 (Some ''12/31-D'') = Some (2026, 12, 31) \<and>
   parse_day_shift_to_date 2026 (Some ''shift-N'') = None \<and>
   map fst (with_state_date 2026 example_states) =
     [example_states ! 0, example_states ! 1, example_states ! 2, example_states ! 4]"
proof -
  have y: "(1::nat) \<le> 2026" "(2026::nat) \<le> 9999" by simp_all
  have n: "strptime ''1/5/24'' ''%m/%d/%Y'' = None" by (simp add: strptime_eval)
  from day_shift_dates_in_format_order [OF y, of "''1/5/24-N''"]
  have p1: "parse_day_shift_to_date 2026 (Some ''1/5/24-N'') = Some (2024, 1, 5)"
    by (simp add: strptime_eval)
  from day_shift_dates_in_format_order [OF y, of "''1/5/2024-D''"]
  have p2: "parse_day_shift_to_date 2026 (Some ''1/5/2024-D'') = Some (2024, 1, 5)"
    by (simp add: strptime_eval)
  from day_shift_dates_in_format_order [OF y, of "''12/31-D''"]
  have p3: "parse_day_shift_to_date 2026 (Some ''12/31-D'') = Some (2026, 12, 31)"
    by (simp add: strptime_eval)
  from day_shift_dates_in_format_order [OF y, of "''shift-N''"]
  have p4: "parse_day_shift_to_date 2026 (Some ''shift-N'') = None"
    by (simp add: strptime_eval)
  from day_shift_dates_in_format_order [OF y, of _ example_states]
  have "map fst (with_state_date 2026 example_states) =
     filter (\<lambda>r. parse_day_shift_to_date 2026 (DAY_SHIFT r) \<noteq> None) example_states"
    by blast
  then have f: "map fst (with_state_date 2026 example_states) =
     [example_states ! 0, example_states ! 1, example_states ! 2, example_states ! 4]"
    by (simp add: example_states_def example_state_record_def parse_eval)
  from n p1 p2 p3 p4 f show ?thesis by blast
qed

section \<open>Claims on the state hours\<close>

text \<open>
  Claim C6, as the specification words it, compares the raw state itself with the configured
  names. \<^verbatim>\<open>classify_state\<close> compares \<^verbatim>\<open>str(entity_state).strip()\<close> (line 120): a raw state
  \<^verbatim>\<open>" Running"\<close>, which is neither the bagged name nor in the running or idle lists of the
  example configuration, is classified Running, not Down.
\<close>

theorem C6_padded_state_not_down:
  "classify_state example_state_config (Some '' Running'') = Running \<and>
   classify_spec example_state_config (Some '' Running'') = Down"
  by (simp add: classify_eval)

text \<open>
  Claim C6, amended: \<^verbatim>\<open>classify_state\<close> returns one of the four categories, decided in the
  order bagged, running, idle, Down on the raw state with the surrounding whitespace removed;
  a missing raw state is Down; and on a raw state without surrounding whitespace this is the
  decision on the raw state itself.
\<close>

theorem C6_classify_state_on_stripped_value:
  "classify_state cfg raw = classify_spec cfg (map_option py_strip raw) \<and>
   classify_state cfg raw \<in> {Running, Idle, Down, Bagged} \<and>
   (raw = None \<longrightarrow> classify_state cfg raw = Down) \<and>
   (\<forall>s. raw = Some s \<and> py_strip s = s \<longrightarrow> classify_state cfg raw = classify_spec cfg raw)"
proof -
  have a: "classify_state cfg raw = classify_spec cfg (map_option py_strip raw)"
    by (cases raw) (simp_all add: classify_state_def classify_spec_def)
  have b: "classify_state cfg raw \<in> {Running, Idle, Down, Bagged}"
    by (cases "classify_state cfg raw") simp_all
  have c: "raw = None \<longrightarrow> classify_state cfg raw = Down"
    by (simp add: classify_state_def)
  have d: "\<forall>s. raw = Some s \<and> py_strip s = s \<longrightarrow> classify_state cfg raw = classify_spec cfg raw"
    using a by auto
  from a b c d show ?thesis by blast
qed

theorem C6_classify_state_on_stripped_value_witness:
  "py_strip ''Idle '' = ''Idle'' \<and>
   classify_state example_state_config (Some ''Idle '') = Idle \<and>
   py_strip ''Running'' = ''Running'' \<and>
   classify_state example_state_config (Some ''Running'') =
     classify_spec example_state_config (Some ''Running'')"
proof -
  have s1: "py_strip ''Idle '' = ''Idle''" by (simp add: py_strip_def py_isspace_def)
  have s2: "py_strip ''Running'' = ''Running''" by (simp add: py_strip_def py_isspace_def)
  have i: "classify_spec example_state_config (Some ''Idle'') = Idle"
    by (simp add: classify_spec_def example_state_config_def)
  from C6_classify_state_on_stripped_value [of example_state_config "Some ''Idle ''"]
  have t1: "classify_state example_state_config (Some ''Idle '') = Idle"
    using s1 i by simp
  from C6_classify_state_on_stripped_value [of example_state_config "Some ''Running''"] s2
  have t2: "classify_state example_state_config (Some ''Running'') =
     classify_spec example_state_config (Some ''Running'')"
    by blast
  from s1 s2 t1 t2 show ?thesis by blast
qed

text \<open>
  Claim C5: every row \<^verbatim>\<open>calculate_daily_state_hours\<close> returns has its total equal to the sum
  of the four category hours and its bagged flag equal to \<open>bagged_hours > 0\<close>; no two
  returned rows have the same entity and date; and where several pivot rows have the same
  entity and date the last of them is the one kept: a returned row is a pivot row with no later
  pivot row of its entity and date, every entity and date of a pivot row is returned, and the
  returned rows are in the order of the pivot rows. Hours are real numbers here.
\<close>

theorem C5_state_day_aggregate_invariants:
  "(\<forall>x\<in>set (calculate_daily_state_hours cfg current_year df).
      total_hours x = running_hours x + idle_hours x + down_hours x + bagged_hours x \<and>
      is_bagged x = (bagged_hours x > 0) \<and>
      (\<exists>ys zs. state_hours_pivot cfg (with_state_date current_year df) = ys @ x # zs \<and>
               dedup_key x \<notin> dedup_key ` set zs)) \<and>
   distinct (map dedup_key (calculate_daily_state_hours cfg current_year df)) \<and>
   dedup_key ` set (calculate_daily_state_hours cfg current_year df) =
     dedup_key ` set (state_hours_pivot cfg (with_state_date current_year df)) \<and>
   subseq (calculate_daily_state_hours cfg current_year df)
     (state_hours_pivot cfg (with_state_date current_year df))"
proof -
  let ?p = "state_hours_pivot cfg (with_state_date current_year df)"
  have a: "\<forall>x\<in>set (drop_duplicates_last ?p).
      total_hours x = running_hours x + idle_hours x + down_hours x + bagged_hours x \<and>
      is_bagged x = (bagged_hours x > 0)"
    using drop_duplicates_last_subset [of ?p] state_hours_pivot_invariant by blast
  have b: "\<forall>x\<in>set (drop_duplicates_last ?p).
      \<exists>ys zs. ?p = ys @ x # zs \<and> dedup_key x \<notin> dedup_key ` set zs"
    using drop_duplicates_last_kept by blast
  from a b show ?thesis
    unfolding calculate_daily_state_hours_def
    using drop_duplicates_last_distinct [of ?p] drop_duplicates_last_keys [of ?p]
      drop_duplicates_last_subseq [of ?p]
    by blast
qed

theorem C5_state_day_aggregate_invariants_witness:
  "state_hours_pivot example_state_config (with_state_date 2026 example_states) =
     [\<lparr>sh_ENTITY = ''E1'', sh_FAB = ''F1'', sh_FAB_ENTITY = ''F1_E1'', state_date = (2024, 1, 5),
       running_hours = 5, idle_hours = 2, down_hours = 0, bagged_hours = 0, total_hours = 7,
       is_bagged = False\<rparr>,
      \<lparr>sh_ENTITY = ''E1'', sh_FAB = ''F2'', sh_FAB_ENTITY = ''F2_E1'', state_date = (2024, 1, 5),
       running_hours = 0, idle_hours = 0, down_hours = 0, bagged_hours = 3, total_hours = 3,
       is_bagged = True\<rparr>] \<and>
   calculate_daily_state_hours example_state_config 2026 example_states =
     [\<lparr>sh_ENTITY = ''E1'', sh_FAB = ''F2'', sh_FAB_ENTITY = ''F2_E1'', state_date = (2024, 1, 5),
       running_hours = 0, idle_hours = 0, down_hours = 0, bagged_hours = 3, total_hours = 3,
       is_bagged = True\<rparr>] \<and>
   distinct (map dedup_key (calculate_daily_state_hours example_state_config 2026 example_states))"
proof -
  have p: "state_hours_pivot example_state_config (with_state_date 2026 example_states) =
     [\<lparr>sh_ENTITY = ''E1'', sh_FAB = ''F1'', sh_FAB_ENTITY = ''F1_E1'', state_date = (2024, 1, 5),
       running_hours = 5, idle_hours = 2, down_hours = 0, bagged_hours = 0, total_hours = 7,
       is_bagged = False\<rparr>,
      \<lparr>sh_ENTITY = ''E1'', sh_FAB = ''F2'', sh_FAB_ENTITY = ''F2_E1'', state_date = (2024, 1, 5),
       running_hours = 0, idle_hours = 0, down_hours = 0, bagged_hours = 3, total_hours = 3,
       is_bagged = True\<rparr>]"
    unfolding example_with_state_date by (simp add: pivot_eval)
  have c: "calculate_daily_state_hours example_state_config 2026 example_states =
     [\<lparr>sh_ENTITY = ''E1'', sh_FAB = ''F2'', sh_FAB_ENTITY = ''F2_E1'', state_date = (2024, 1, 5),
       running_hours = 0, idle_hours = 0, down_hours = 0, bagged_hours = 3, total_hours = 3,
       is_bagged = True\<rparr>]"
    unfolding calculate_daily_state_hours_def p by (simp add: dedup_key_def)
  from C5_state_day_aggregate_invariants [of example_state_config 2026 example_states]
  have "distinct (map dedup_key
          (calculate_daily_state_hours example_state_config 2026 example_states))"
    by blast
  with p c show ?thesis by blast
qed

text \<open>
  Claim C9 has the no-year format read the month and day in the current calendar year, and
  the comment of line 84 says the same. \<^verbatim>\<open>datetime.strptime\<close> with \<^verbatim>\<open>%m/%d\<close> builds the date in
  1900 before line 87 puts the current year in, and 1900 has no 29 February: in the leap year
  2028 the day shift \<^verbatim>\<open>2/29-N\<close> names the date 2028-02-29, which the same text with the year
  written out gives, but it gets no date from any of the three formats, and its record is
  dropped from the aggregation.
\<close>

theorem C9_no_year_leap_day_dropped:
  "valid_date (2028, 2, 29) \<and>
   parse_day_shift_to_date 2028 (Some ''2/29/2028-N'') = Some (2028, 2, 29) \<and>
   strptime ''2/29'' ''%m/%d'' = None \<and>
   parse_day_shift_to_date 2028 (Some ''2/29-N'') = None \<and>
   calculate_daily_state_hours example_state_config 2028
     [example_state_record ''E1'' ''F1'' (Some ''Running'') (Some 5) ''2/29-N''] = []"
proof -
  have a: "valid_date (2028, 2, 29)" by (simp add: valid_date_def days_in_month_def is_leap_def)
  have b: "parse_day_shift_to_date 2028 (Some ''2/29/2028-N'') = Some (2028, 2, 29)"
    by (simp add: parse_eval)
  have c: "strptime ''2/29'' ''%m/%d'' = None" by (simp add: strptime_eval)
  have d: "parse_day_shift_to_date 2028 (Some ''2/29-N'') = None" by (simp add: parse_eval)
  have e: "with_state_date 2028
     [example_state_record ''E1'' ''F1'' (Some ''Running'') (Some 5) ''2/29-N''] = []"
    by (simp add: with_state_date_def example_state_record_def d)
  have f: "calculate_daily_state_hours example_state_config 2028
     [example_state_record ''E1'' ''F1'' (Some ''Running'') (Some 5) ''2/29-N''] = []"
    unfolding calculate_daily_state_hours_def e by (simp add: state_hours_pivot_def)
  from a b c d e f show ?thesis by blast
qed

end
